theory Spec2Isabelle
  imports Complex_Main
begin

section \<open>The Gaussian pruner (cpp_core/src/gaussian_pruner.cpp)\<close>

text \<open>
  The program loads a point-cloud asset, keeps the records of its \<open>vertex\<close> element whose
  opacity, passed through the logistic function, exceeds a threshold, and writes the kept
  records with all their properties to a new asset.

  The embedding follows \<open>main\<close> line by line. Three things the source takes from
  elsewhere are made explicit:
  \<^item> binary32 arithmetic (\<open>float\<close>): values and round-to-nearest-even are modelled below;
  \<^item> \<open>std::exp\<close> and \<open>std::stof\<close>: library functions whose results the language standard
    does not fix to the last bit; they are parameters (\<open>fexp\<close>, \<open>stof\<close>) of every
    definition that calls them;
  \<^item> the \<open>happly\<close> container and its reader and writer, which are not part of the source
    file: they are modelled from the specification's Property Table Model.
\<close>

subsection \<open>binary32 values and arithmetic\<close>

text \<open>
  A \<open>float\<close> is its value: a rational, an infinity or NaN. The two zeros are one value
  (they compare equal); the sign of a zero could only show in a division by zero, and the
  program's two divisors are \<open>1.0f + exp(-x)\<close> and a converted \<open>size_t\<close>, which is never
  a negative zero. Every arithmetic operation returns its exact result rounded to
  binary32, to nearest with ties to even (the default rounding mode, \<open>float\<close>
  expressions evaluated in \<open>float\<close>).
\<close>

datatype float = NaN | PInf | NInf | Fin rat

text \<open>\<open>ilog b n\<close> is the integer \<open>k\<close> with \<open>b ^ k \<le> n < b ^ (k + 1)\<close>, for \<open>1 \<le> n\<close>.\<close>

function ilog :: "int \<Rightarrow> int \<Rightarrow> int" where
  "ilog b n = (if 1 < b \<and> b \<le> n then ilog b (n div b) + 1 else 0)"
  by pat_completeness auto
termination
  by (relation "measure (\<lambda>(b, n). nat n)") (auto intro: int_div_less_self)

declare ilog.simps [simp del]

text \<open>\<open>floor_log b x\<close> is the integer \<open>e\<close> with \<open>b ^ e \<le> x < b ^ (e + 1)\<close>, for \<open>0 < x\<close>.\<close>

definition floor_log :: "int \<Rightarrow> rat \<Rightarrow> int" where
  "floor_log b x =
     (if 1 \<le> x then ilog b \<lfloor>x\<rfloor>
      else (let k = ilog b \<lfloor>1 / x\<rfloor>
            in if x * of_int b powi k = 1 then - k else - k - 1))"

definition round_half_even :: "rat \<Rightarrow> int" where
  "round_half_even r =
     (let f = \<lfloor>r\<rfloor>; d = r - of_int f
      in if d < 1 / 2 then f
         else if 1 / 2 < d then f + 1
         else if even f then f else f + 1)"

text \<open>
  Rounding a rational to binary32, to nearest, ties to even: 24 significant bits, the
  exponent of the leading bit no smaller than \<open>-126\<close> (below it the spacing stays
  \<open>2 ^ -149\<close>: subnormals), and overflow to an infinity from \<open>2 ^ 128\<close> on.
\<close>

definition round32 :: "rat \<Rightarrow> float" where
  "round32 x =
     (if x = 0 then Fin 0
      else (let e = max (floor_log 2 \<bar>x\<bar>) (- 126);
                q = 2 powi (e - 23);
                y = of_int (round_half_even (x / q)) * q
            in if 2 ^ 128 \<le> y then PInf
               else if y \<le> - (2 ^ 128) then NInf
               else Fin y))"

fun fneg :: "float \<Rightarrow> float" where
  "fneg NaN = NaN"
| "fneg PInf = NInf"
| "fneg NInf = PInf"
| "fneg (Fin x) = Fin (- x)"

fun fadd :: "float \<Rightarrow> float \<Rightarrow> float" where
  "fadd NaN b = NaN"
| "fadd a NaN = NaN"
| "fadd PInf NInf = NaN"
| "fadd NInf PInf = NaN"
| "fadd PInf b = PInf"
| "fadd a PInf = PInf"
| "fadd NInf b = NInf"
| "fadd a NInf = NInf"
| "fadd (Fin x) (Fin y) = round32 (x + y)"

definition fsub :: "float \<Rightarrow> float \<Rightarrow> float" where
  "fsub a b = fadd a (fneg b)"

fun fmul :: "float \<Rightarrow> float \<Rightarrow> float" where
  "fmul NaN b = NaN"
| "fmul a NaN = NaN"
| "fmul (Fin x) (Fin y) = round32 (x * y)"
| "fmul (Fin x) b = (if x = 0 then NaN else if 0 < x then b else fneg b)"
| "fmul a (Fin y) = (if y = 0 then NaN else if 0 < y then a else fneg a)"
| "fmul a b = (if a = b then PInf else NInf)"

fun fdiv :: "float \<Rightarrow> float \<Rightarrow> float" where
  "fdiv NaN b = NaN"
| "fdiv a NaN = NaN"
| "fdiv (Fin x) (Fin y) =
     (if y = 0 then (if x = 0 then NaN else if 0 < x then PInf else NInf)
      else round32 (x / y))"
| "fdiv (Fin x) b = Fin 0"
| "fdiv a (Fin y) = (if 0 \<le> y then a else fneg a)"
| "fdiv a b = NaN"

text \<open>Comparisons are exact; every comparison with NaN is false.\<close>

fun fgt :: "float \<Rightarrow> float \<Rightarrow> bool" where
  "fgt NaN b = False"
| "fgt a NaN = False"
| "fgt a PInf = False"
| "fgt PInf b = True"
| "fgt NInf b = False"
| "fgt a NInf = True"
| "fgt (Fin x) (Fin y) = (y < x)"

fun fle :: "float \<Rightarrow> float \<Rightarrow> bool" where
  "fle NaN b = False"
| "fle a NaN = False"
| "fle a b = (\<not> fgt a b)"

text \<open>The conversion \<open>(float)n\<close> of a \<open>size_t\<close>, to the nearest binary32. Sizes are
  natural numbers: no loop of the program counts past the length of a vector.\<close>

definition float_of_size :: "nat \<Rightarrow> float" where
  "float_of_size n = round32 (of_nat n)"

text \<open>
  What \<open>std::cout << x\<close> shows for a \<open>float\<close> with the stream's default settings: the
  value rounded to six significant decimal digits, or \<open>nan\<close>, or \<open>inf\<close>.
\<close>

datatype printed = PrintedNaN | PrintedInf | PrintedMinusInf | PrintedNum rat

fun print6 :: "float \<Rightarrow> printed" where
  "print6 NaN = PrintedNaN"
| "print6 PInf = PrintedInf"
| "print6 NInf = PrintedMinusInf"
| "print6 (Fin x) =
     (if x = 0 then PrintedNum 0
      else (let q = 10 powi (floor_log 10 \<bar>x\<bar> - 5)
            in PrintedNum (of_int (round_half_even (x / q)) * q)))"

subsection \<open>Lines 8-11: sigmoid\<close>

definition sigmoid :: "(float \<Rightarrow> float) \<Rightarrow> float \<Rightarrow> float" where
  "sigmoid fexp x = fdiv (Fin 1) (fadd (Fin 1) (fexp (fneg x)))"

subsection \<open>The property table and the asset\<close>

datatype failure =
    InvalidArgument \<comment> \<open>\<open>std::stof\<close>: no conversion\<close>
  | OutOfRange \<comment> \<open>\<open>std::stof\<close>: value out of range\<close>
  | IOError
  | FormatError
  | SchemaError
  | OutOfBounds \<comment> \<open>a \<open>std::vector\<close> indexed past its end (undefined behaviour)\<close>

record PropertyTable =
  record_count :: nat
  columns :: "(string \<times> float list) list"

text \<open>The invariant of the data model: unique names, every column as long as the table.\<close>

definition wf_table :: "PropertyTable \<Rightarrow> bool" where
  "wf_table t \<longleftrightarrow>
     distinct (map fst (columns t)) \<and>
     list_all (\<lambda>c. length (snd c) = record_count t) (columns t)"

text \<open>Modelled from the spec: \<open>property_names\<close> (happly's \<open>Element::getPropertyNames\<close>),
  the names in declared order.\<close>

definition getPropertyNames :: "PropertyTable \<Rightarrow> string list" where
  "getPropertyNames t = map fst (columns t)"

text \<open>Modelled from the spec: \<open>get_column\<close> (happly's \<open>Element::getProperty<float>\<close>),
  a copy of the column, \<open>SchemaError\<close> if the name is absent.\<close>

definition getProperty :: "PropertyTable \<Rightarrow> string \<Rightarrow> failure + float list" where
  "getProperty t name =
     (case map_of (columns t) name of None \<Rightarrow> Inl SchemaError | Some c \<Rightarrow> Inr c)"

text \<open>Modelled from the spec: \<open>add_column\<close> (happly's \<open>Element::addProperty<float>\<close>),
  \<open>SchemaError\<close> if the name already exists or, for a non-empty table, if the data is not
  as long as the table. A table with no record and no column is empty; its first column
  gives it its record count.\<close>

definition addProperty :: "PropertyTable \<Rightarrow> string \<Rightarrow> float list \<Rightarrow> failure + PropertyTable" where
  "addProperty t name data =
     (if name \<in> set (getPropertyNames t) then Inl SchemaError
      else if \<not> (record_count t = 0 \<and> columns t = []) \<and> length data \<noteq> record_count t
        then Inl SchemaError
      else Inr (t\<lparr>record_count := length data, columns := columns t @ [(name, data)]\<rparr>))"

text \<open>An asset (happly's \<open>PLYData\<close>): its record types in order, each with its table.\<close>

type_synonym PLYData = "(string \<times> PropertyTable) list"

text \<open>Modelled from the spec: happly's \<open>PLYData::getElement\<close>; the driver asserts that the
  record type is present, a \<open>SchemaError\<close> otherwise.\<close>

definition getElement :: "PLYData \<Rightarrow> string \<Rightarrow> failure + PropertyTable" where
  "getElement ply name =
     (case map_of ply name of None \<Rightarrow> Inl SchemaError | Some t \<Rightarrow> Inr t)"

text \<open>Modelled from the spec: happly's \<open>PLYData::addElement\<close>, a new record type with its
  record count and no property yet.\<close>

definition addElement :: "PLYData \<Rightarrow> string \<Rightarrow> nat \<Rightarrow> PLYData" where
  "addElement ply name count = ply @ [(name, \<lparr>record_count = count, columns = []\<rparr>)]"

text \<open>\<open>getElement\<close> returns a reference: \<open>ply.getElement(name).addProperty(...)\<close> changes
  the table inside the asset.\<close>

fun putElement :: "PLYData \<Rightarrow> string \<Rightarrow> PropertyTable \<Rightarrow> PLYData" where
  "putElement [] name t = []"
| "putElement ((n, u) # ply) name t =
     (if n = name then (n, t) # ply else (n, u) # putElement ply name t)"

definition addPropertyIn :: "PLYData \<Rightarrow> string \<Rightarrow> string \<Rightarrow> float list \<Rightarrow> failure + PLYData" where
  "addPropertyIn ply ename pname data =
     (case getElement ply ename of
        Inl e \<Rightarrow> Inl e
      | Inr t \<Rightarrow>
          (case addProperty t pname data of
             Inl e \<Rightarrow> Inl e
           | Inr t' \<Rightarrow> Inr (putElement ply ename t')))"

subsection \<open>Lines 32-41: the pruning mask\<close>

text \<open>
  The loop \<open>for (i = 0; i < num_original; ++i)\<close>, with the vector \<open>valid_indices\<close> as
  accumulator. \<open>opacities[i]\<close> past the end of the vector is undefined behaviour; the
  model stops there with \<open>OutOfBounds\<close>.
\<close>

function select_loop ::
  "(float \<Rightarrow> float) \<Rightarrow> nat \<Rightarrow> nat \<Rightarrow> float list \<Rightarrow> float \<Rightarrow> nat list \<Rightarrow> failure + nat list" where
  "select_loop fexp i num_original opacities threshold valid_indices =
     (if i < num_original then
        (if i < length opacities then
           select_loop fexp (i + 1) num_original opacities threshold
             (if fgt (sigmoid fexp (opacities ! i)) threshold
              then valid_indices @ [i] else valid_indices)
         else Inl OutOfBounds)
      else Inr valid_indices)"
  by pat_completeness auto
termination
  by (relation "measure (\<lambda>(fexp, i, num_original, opacities, threshold, valid_indices).
        num_original - i)") auto

declare select_loop.simps [simp del]

definition select_mask :: "(float \<Rightarrow> float) \<Rightarrow> PropertyTable \<Rightarrow> float \<Rightarrow> failure + nat list" where
  "select_mask fexp vElement threshold =
     (case getProperty vElement ''opacity'' of
        Inl e \<Rightarrow> Inl e
      | Inr opacities \<Rightarrow>
          select_loop fexp 0 (record_count vElement) opacities threshold [])"

subsection \<open>Line 45: the compression rate\<close>

definition compression_rate :: "nat \<Rightarrow> nat \<Rightarrow> float" where
  "compression_rate num_optimized num_original =
     fmul (fsub (Fin 1) (fdiv (float_of_size num_optimized) (float_of_size num_original)))
       (Fin 100)"

subsection \<open>Lines 47-60: the output asset\<close>

text \<open>The inner loop \<open>new_data[i] = old_data[valid_indices[i]]\<close>.\<close>

function gather_loop ::
  "nat \<Rightarrow> nat \<Rightarrow> float list \<Rightarrow> nat list \<Rightarrow> float list \<Rightarrow> failure + float list" where
  "gather_loop i num_optimized old_data valid_indices new_data =
     (if i < num_optimized then
        (if i < length valid_indices \<and> valid_indices ! i < length old_data
            \<and> i < length new_data then
           gather_loop (i + 1) num_optimized old_data valid_indices
             (new_data[i := old_data ! (valid_indices ! i)])
         else Inl OutOfBounds)
      else Inr new_data)"
  by pat_completeness auto
termination
  by (relation "measure (\<lambda>(i, num_optimized, old_data, valid_indices, new_data).
        num_optimized - i)") auto

declare gather_loop.simps [simp del]

text \<open>
  The two assets the driver holds. The loop over the property names reads \<open>plyIn\<close>
  through the reference \<open>vElement\<close> and adds to the \<open>vertex\<close> element of \<open>plyOut\<close>.
\<close>

record store =
  plyIn :: PLYData
  plyOut :: PLYData

fun copy_properties :: "string list \<Rightarrow> nat \<Rightarrow> nat list \<Rightarrow> store \<Rightarrow> failure + store" where
  "copy_properties [] num_optimized valid_indices s = Inr s"
| "copy_properties (prop_name # names) num_optimized valid_indices s =
     (case getElement (plyIn s) ''vertex'' of
        Inl e \<Rightarrow> Inl e
      | Inr vElement \<Rightarrow>
     (case getProperty vElement prop_name of
        Inl e \<Rightarrow> Inl e
      | Inr old_data \<Rightarrow>
     (case gather_loop 0 num_optimized old_data valid_indices
             (replicate num_optimized (Fin 0)) of
        Inl e \<Rightarrow> Inl e
      | Inr new_data \<Rightarrow>
     (case addPropertyIn (plyOut s) ''vertex'' prop_name new_data of
        Inl e \<Rightarrow> Inl e
      | Inr ply \<Rightarrow>
          copy_properties names num_optimized valid_indices (s\<lparr>plyOut := ply\<rparr>)))))"

definition compact_table :: "PLYData \<Rightarrow> nat list \<Rightarrow> failure + store" where
  "compact_table ply valid_indices =
     (let num_optimized = length valid_indices;
          s = \<lparr>plyIn = ply, plyOut = addElement [] ''vertex'' num_optimized\<rparr>
      in case getElement (plyIn s) ''vertex'' of
           Inl e \<Rightarrow> Inl e
         | Inr vElement \<Rightarrow>
             copy_properties (getPropertyNames vElement) num_optimized valid_indices s)"

subsection \<open>Lines 13-72: main\<close>

text \<open>
  The world outside the process: the files (the codec is not part of the source file: a
  file holds a well-formed asset or bytes that do not decode), which paths can be
  written, and what has been printed on the two streams. The elapsed time of line 69 and
  the exhaustion of memory are left out.
\<close>

datatype contents = Asset PLYData | Malformed

datatype event =
    Usage string
  | Loading string
  | OriginalGaussians nat
  | PrunedGaussians nat
  | CompressionRate printed
  | Writing string
  | Complete
  | Uncaught failure \<comment> \<open>the runtime's message for an exception that nothing catches\<close>

record world =
  files :: "string \<Rightarrow> contents option"
  writable :: "string \<Rightarrow> bool"
  cout :: "event list"
  cerr :: "event list"

datatype outcome = Exit nat | Terminate failure

text \<open>Modelled from the spec: \<open>decode\<close> of the Binary Codec (happly's reader), an
  \<open>IOError\<close> for an unreadable path and a \<open>FormatError\<close> for bytes that do not decode.\<close>

definition load_asset :: "world \<Rightarrow> string \<Rightarrow> failure + PLYData" where
  "load_asset w path =
     (case files w path of
        None \<Rightarrow> Inl IOError
      | Some Malformed \<Rightarrow> Inl FormatError
      | Some (Asset ply) \<Rightarrow> Inr ply)"

text \<open>Modelled from the spec: \<open>encode\<close> of the Binary Codec (happly's writer), an
  \<open>IOError\<close> for an unwritable path.\<close>

definition write_asset :: "world \<Rightarrow> string \<Rightarrow> PLYData \<Rightarrow> failure + world" where
  "write_asset w path ply =
     (if writable w path then Inr (w\<lparr>files := (files w)(path \<mapsto> Asset ply)\<rparr>)
      else Inl IOError)"

definition say :: "event \<Rightarrow> world \<Rightarrow> world" where
  "say e w = w\<lparr>cout := cout w @ [e]\<rparr>"

text \<open>
  \<open>main\<close> has no handler. An exception leaves it and reaches \<open>std::terminate\<close>: the
  runtime writes its message for the exception on the standard error stream and aborts
  the process, which so ends with a non-zero status and without running the rest of
  \<open>main\<close>. (For \<open>OutOfBounds\<close>, which is no exception, the model ends the run in the same
  way.)
\<close>

definition terminate :: "failure \<Rightarrow> world \<Rightarrow> outcome \<times> world" where
  "terminate e w = (Terminate e, w\<lparr>cerr := cerr w @ [Uncaught e]\<rparr>)"

text \<open>Lines 24-71. A failure ends the process where it is raised, with what has been
  printed so far and no file written.\<close>

definition run :: "(float \<Rightarrow> float) \<Rightarrow> string \<Rightarrow> string \<Rightarrow> float \<Rightarrow> world \<Rightarrow> outcome \<times> world" where
  "run fexp input_path output_path threshold w0 =
     (let w1 = say (Loading input_path) w0 in
      case load_asset w1 input_path of
        Inl e \<Rightarrow> terminate e w1
      | Inr ply \<Rightarrow>
     (case getElement ply ''vertex'' of
        Inl e \<Rightarrow> terminate e w1
      | Inr vElement \<Rightarrow>
     (let num_original = record_count vElement;
          w2 = say (OriginalGaussians num_original) w1 in
      case select_mask fexp vElement threshold of
        Inl e \<Rightarrow> terminate e w2
      | Inr valid_indices \<Rightarrow>
     (let num_optimized = length valid_indices;
          w3 = say (PrunedGaussians num_optimized) w2;
          w4 = say (CompressionRate (print6 (compression_rate num_optimized num_original))) w3 in
      case compact_table ply valid_indices of
        Inl e \<Rightarrow> terminate e w4
      | Inr s \<Rightarrow>
     (let w5 = say (Writing output_path) w4 in
      case write_asset w5 output_path (plyOut s) of
        Inl e \<Rightarrow> terminate e w5
      | Inr w6 \<Rightarrow> (Exit 0, say Complete w6))))))"

text \<open>
  Lines 13-22. \<open>prog\<close> is \<open>argv[0]\<close> and \<open>args\<close> the arguments after it, so \<open>argc\<close> is
  \<open>1 + length args\<close>. \<open>0.05f\<close> is the binary32 nearest to \<open>1/20\<close>.
\<close>

definition main ::
  "(float \<Rightarrow> float) \<Rightarrow> (string \<Rightarrow> failure + float) \<Rightarrow> string \<Rightarrow> string list \<Rightarrow> world
     \<Rightarrow> outcome \<times> world" where
  "main fexp stof prog args w =
     (if 1 + length args < 3 then (Exit 1, w\<lparr>cerr := cerr w @ [Usage prog]\<rparr>)
      else
        (let input_path = args ! 0;
             output_path = args ! 1
         in case (if 3 < 1 + length args then stof (args ! 2) else Inr (round32 (1 / 20))) of
              Inl e \<Rightarrow> terminate e w
            | Inr threshold \<Rightarrow> run fexp input_path output_path threshold w))"

subsection \<open>The specification's words for compaction\<close>

text \<open>
  \<open>compact(table, mask)\<close> as the specification states it: every column, in the declared
  order, replaced by the gather \<open>old_column[mask[j]]\<close>, and \<open>record_count = len(mask)\<close>.
  The driver's loops are proved below to compute exactly this.
\<close>

definition gather_column :: "nat list \<Rightarrow> string \<times> float list \<Rightarrow> string \<times> float list" where
  "gather_column valid_indices p = (fst p, map ((!) (snd p)) valid_indices)"

definition gathered_table :: "PropertyTable \<Rightarrow> nat list \<Rightarrow> PropertyTable" where
  "gathered_table t valid_indices =
     \<lparr>record_count = length valid_indices,
      columns = map (gather_column valid_indices) (columns t)\<rparr>"

subsection \<open>What is asked of the library functions\<close>

text \<open>
  The language standard does not say how accurate \<open>std::exp\<close> is. The only property of
  it that a result below relies on: at the argument \<open>x\<close> it returns a finite number within
  one percent of the exponential.
\<close>

definition exp_accurate :: "(float \<Rightarrow> float) \<Rightarrow> rat \<Rightarrow> bool" where
  "exp_accurate fexp x =
     (case fexp (Fin x) of
        Fin y \<Rightarrow> \<bar>real_of_rat y - exp (real_of_rat x)\<bar> \<le> exp (real_of_rat x) / 100
      | _ \<Rightarrow> False)"

text \<open>
  Sample implementations, to run the program on concrete inputs; the general results
  below hold for every \<open>fexp\<close> and \<open>stof\<close>. \<open>fexp_ref\<close> computes
  \<open>(1 + x / 2 ^ 16) ^ (2 ^ 16)\<close> by sixteen binary32 squarings. \<open>stof_decimal\<close> converts
  the plain decimal syntax \<open>[space] [sign] digits [. digits] [e [sign] digits]\<close> followed
  by anything, correctly rounded; without a digit there is no conversion, and a value
  that rounds to an infinity is out of range. It does not cover the hexadecimal,
  infinity and NaN forms that \<open>std::stof\<close> also accepts, and it lets a value underflow.
\<close>

fun square_times :: "nat \<Rightarrow> float \<Rightarrow> float" where
  "square_times 0 y = y"
| "square_times (Suc n) y = square_times n (fmul y y)"

fun fexp_ref :: "float \<Rightarrow> float" where
  "fexp_ref NaN = NaN"
| "fexp_ref PInf = PInf"
| "fexp_ref NInf = Fin 0"
| "fexp_ref (Fin x) =
     (if x < - 128 then Fin 0
      else if 128 < x then PInf
      else square_times 16 (round32 (1 + x / 2 ^ 16)))"

definition is_space :: "char \<Rightarrow> bool" where
  "is_space c \<longleftrightarrow> c \<in> set [CHR '' '', CHR 0x09, CHR 0x0A, CHR 0x0B, CHR 0x0C, CHR 0x0D]"

definition is_digit :: "char \<Rightarrow> bool" where
  "is_digit c \<longleftrightarrow> c \<in> set ''0123456789''"

definition digits_value :: "string \<Rightarrow> nat" where
  "digits_value ds = foldl (\<lambda>n c. 10 * n + (of_char c - 48)) 0 ds"

fun read_sign :: "string \<Rightarrow> bool \<times> string" where
  "read_sign [] = (False, [])"
| "read_sign (c # cs) =
     (if c = CHR ''-'' then (True, cs)
      else if c = CHR ''+'' then (False, cs)
      else (False, c # cs))"

fun read_fraction :: "string \<Rightarrow> string \<times> string" where
  "read_fraction [] = ([], [])"
| "read_fraction (c # cs) =
     (if c = CHR ''.'' then (takeWhile is_digit cs, dropWhile is_digit cs)
      else ([], c # cs))"

fun read_exponent :: "string \<Rightarrow> int" where
  "read_exponent [] = 0"
| "read_exponent (c # cs) =
     (if c = CHR ''e'' \<or> c = CHR ''E'' then
        (let (negative, rest) = read_sign cs;
             ds = takeWhile is_digit rest
         in if ds = [] then 0
            else if negative then - int (digits_value ds) else int (digits_value ds))
      else 0)"

definition stof_decimal :: "string \<Rightarrow> failure + float" where
  "stof_decimal str =
     (let (negative, s1) = read_sign (dropWhile is_space str);
          ip = takeWhile is_digit s1;
          (fp, s2) = read_fraction (dropWhile is_digit s1)
      in if ip = [] \<and> fp = [] then Inl InvalidArgument
         else
           (let m = of_nat (digits_value (ip @ fp)) * 10 powi (read_exponent s2 - int (length fp))
            in case round32 (if negative then - m else m) of
                 PInf \<Rightarrow> Inl OutOfRange
               | NInf \<Rightarrow> Inl OutOfRange
               | r \<Rightarrow> Inr r))"

text \<open>Sample assets: the five-record scenario beside a second record type, and an
  asset without records.\<close>

definition scenario_table :: PropertyTable where
  "scenario_table =
     \<lparr>record_count = 5,
      columns =
        [(''x'', [Fin 1, Fin 2, Fin 3, Fin 4, Fin 5]),
         (''opacity'', [Fin (- 10), Fin (- 3), Fin 0, Fin 3, Fin 10]),
         (''scale_0'', [Fin (1 / 2), Fin (1 / 4), Fin (1 / 8), Fin (1 / 16), Fin (1 / 32)])]\<rparr>"

definition other_table :: PropertyTable where
  "other_table =
     \<lparr>record_count = 5,
      columns =
        [(''opacity'', [Fin (- 10), Fin (- 3), Fin 0, Fin 3, Fin 10]),
         (''f_dc_0'', [Fin 7, Fin 7, Fin 7, Fin 7, Fin 7])]\<rparr>"

definition empty_table :: PropertyTable where
  "empty_table = \<lparr>record_count = 0, columns = [(''x'', []), (''opacity'', [])]\<rparr>"

definition scenario_ply :: PLYData where
  "scenario_ply =
     [(''vertex'', scenario_table),
      (''face'', \<lparr>record_count = 1, columns = [(''area'', [Fin 1])]\<rparr>)]"

definition sample_world :: world where
  "sample_world =
     \<lparr>files = map_of
        [(''scene.ply'', Asset scenario_ply),
         (''empty.ply'', Asset [(''vertex'', empty_table)])],
      writable = (\<lambda>path. True),
      cout = [],
      cerr = []\<rparr>"

section \<open>Properties\<close>

subsection \<open>The loops\<close>

lemma select_loop_eq:
  "i \<le> n \<Longrightarrow> n \<le> length ops \<Longrightarrow>
   select_loop fexp i n ops thr acc =
     Inr (acc @ filter (\<lambda>j. fgt (sigmoid fexp (ops ! j)) thr) [i..<n])"
proof (induction fexp i n ops thr acc rule: select_loop.induct)
  case (1 fexp i n ops thr acc)
  show ?case
  proof (cases "i < n")
    case True
    then have up: "[i..<n] = i # [i + 1..<n]"
      by (simp add: upt_conv_Cons)
    from True "1.prems" have "i < length ops" by simp
    with True "1.IH" "1.prems" show ?thesis
      by (subst select_loop.simps) (simp add: up)
  next
    case False
    with "1.prems" show ?thesis
      by (subst select_loop.simps) simp
  qed
qed

lemma gather_loop_eq:
  "i \<le> n \<Longrightarrow> length valid = n \<Longrightarrow> length new = n \<Longrightarrow>
   \<forall>j \<in> set valid. j < length old \<Longrightarrow>
   gather_loop i n old valid new =
     Inr (take i new @ map (\<lambda>j. old ! (valid ! j)) [i..<n])"
proof (induction i n old valid new rule: gather_loop.induct)
  case (1 i n old valid new)
  show ?case
  proof (cases "i < n")
    case True
    then have up: "[i..<n] = i # [i + 1..<n]"
      by (simp add: upt_conv_Cons)
    from True "1.prems" have b: "i < length valid" "valid ! i < length old" "i < length new"
      by simp_all
    have tk: "take (Suc i) (new[i := v]) = take i new @ [v]" for v
      using b(3) by (simp add: take_Suc_conv_app_nth)
    from True b "1.prems" "1.IH" show ?thesis
      by (subst gather_loop.simps) (simp add: up tk)
  next
    case False
    with "1.prems" show ?thesis
      by (subst gather_loop.simps) simp
  qed
qed

lemma gather_loop_map:
  assumes "\<forall>j \<in> set valid. j < length old"
  shows "gather_loop 0 (length valid) old valid (replicate (length valid) (Fin 0)) =
           Inr (map ((!) old) valid)"
proof -
  have "map (\<lambda>j. old ! (valid ! j)) [0..<length valid] = map ((!) old) valid"
    by (rule nth_equalityI) simp_all
  moreover have "gather_loop 0 (length valid) old valid (replicate (length valid) (Fin 0)) =
      Inr (take 0 (replicate (length valid) (Fin 0)) @
           map (\<lambda>j. old ! (valid ! j)) [0..<length valid])"
    by (rule gather_loop_eq) (use assms in simp_all)
  ultimately show ?thesis by simp
qed


lemma gather_column_pair: "gather_column vs (name, c) = (name, map ((!) c) vs)"
  by (simp add: gather_column_def)

lemma getProperty_member:
  assumes "distinct (map fst (columns t))" "(name, c) \<in> set (columns t)"
  shows "getProperty t name = Inr c"
  using assms by (simp add: getProperty_def)

lemma getElement_single [simp]: "getElement [(name, t)] name = Inr t"
  by (simp add: getElement_def)

lemma addPropertyIn_single:
  assumes "name \<notin> fst ` set cols" "length data = n"
  shows "addPropertyIn [(''vertex'', \<lparr>record_count = n, columns = cols\<rparr>)] ''vertex'' name data =
           Inr [(''vertex'', \<lparr>record_count = n, columns = cols @ [(name, data)]\<rparr>)]"
  using assms by (simp add: addPropertyIn_def addProperty_def getPropertyNames_def)

lemma copy_properties_suffix:
  assumes el: "getElement ply ''vertex'' = Inr t"
    and wf: "wf_table t"
    and rng: "\<forall>j \<in> set vs. j < record_count t"
  shows "columns t = pre @ cs \<Longrightarrow>
     copy_properties (map fst cs) (length vs) vs
       \<lparr>plyIn = ply,
        plyOut = [(''vertex'', \<lparr>record_count = length vs,
                               columns = map (gather_column vs) pre\<rparr>)]\<rparr> =
     Inr \<lparr>plyIn = ply,
          plyOut = [(''vertex'', \<lparr>record_count = length vs,
                                 columns = map (gather_column vs) (pre @ cs)\<rparr>)]\<rparr>"
proof (induction cs arbitrary: pre)
  case Nil
  then show ?case by simp
next
  case (Cons p cs)
  obtain name c where p: "p = (name, c)" by (cases p)
  from wf have dist: "distinct (map fst (columns t))"
    and len: "list_all (\<lambda>c. length (snd c) = record_count t) (columns t)"
    by (simp_all add: wf_table_def)
  from Cons.prems p have mem: "(name, c) \<in> set (columns t)" by simp
  with dist have gp: "getProperty t name = Inr c"
    by (rule getProperty_member)
  from len mem have "length c = record_count t"
    by (auto simp: list_all_iff)
  with rng have "\<forall>j \<in> set vs. j < length c" by simp
  then have gl: "gather_loop 0 (length vs) c vs (replicate (length vs) (Fin 0)) =
      Inr (map ((!) c) vs)"
    by (rule gather_loop_map)
  from dist Cons.prems p have "name \<notin> fst ` set pre"
    by auto
  moreover have "fst ` set (map (gather_column vs) pre) = fst ` set pre"
    by (force simp: gather_column_def)
  ultimately have fresh: "name \<notin> fst ` set (map (gather_column vs) pre)"
    by simp
  have ap: "addPropertyIn
      [(''vertex'', \<lparr>record_count = length vs, columns = map (gather_column vs) pre\<rparr>)]
      ''vertex'' name (map ((!) c) vs) =
      Inr [(''vertex'', \<lparr>record_count = length vs,
                          columns = map (gather_column vs) pre @ [(name, map ((!) c) vs)]\<rparr>)]"
    using fresh by (rule addPropertyIn_single) simp
  from Cons.prems p have "columns t = (pre @ [(name, c)]) @ cs" by simp
  from Cons.IH [OF this] show ?case
    by (simp add: p el gp gl ap gather_column_pair)
qed

lemma compact_table_eq:
  assumes "getElement ply ''vertex'' = Inr t" "wf_table t" "\<forall>j \<in> set vs. j < record_count t"
  shows "compact_table ply vs =
           Inr \<lparr>plyIn = ply, plyOut = [(''vertex'', gathered_table t vs)]\<rparr>"
  using copy_properties_suffix [OF assms, of "[]" "columns t"] assms(1)
  by (simp add: compact_table_def addElement_def getPropertyNames_def gathered_table_def)

subsection \<open>Tables, selection and compaction\<close>

lemma getProperty_length:
  assumes "wf_table t" "getProperty t name = Inr c"
  shows "length c = record_count t"
proof -
  from assms(2) have "map_of (columns t) name = Some c"
    by (simp add: getProperty_def split: option.splits)
  then have "(name, c) \<in> set (columns t)"
    by (rule map_of_SomeD)
  with assms(1) show ?thesis
    by (auto simp: wf_table_def list_all_iff)
qed

lemma select_mask_eq:
  assumes "wf_table t" "getProperty t ''opacity'' = Inr ops"
  shows "select_mask fexp t thr =
           Inr (filter (\<lambda>i. fgt (sigmoid fexp (ops ! i)) thr) [0..<record_count t])"
proof -
  from assms have "record_count t \<le> length ops"
    by (simp add: getProperty_length)
  then have "select_loop fexp 0 (record_count t) ops thr [] =
      Inr ([] @ filter (\<lambda>i. fgt (sigmoid fexp (ops ! i)) thr) [0..<record_count t])"
    by (intro select_loop_eq) simp_all
  with assms(2) show ?thesis
    by (simp add: select_mask_def)
qed

lemma nths_filter_upt:
  "map ((!) xs) (filter P [0..<length xs]) = nths xs {i. P i}"
proof -
  have "zip xs [0..<length xs] = map (\<lambda>i. (xs ! i, i)) [0..<length xs]"
    by (rule nth_equalityI) simp_all
  then show ?thesis
    by (simp add: nths_def filter_map comp_def)
qed

lemma strict_sorted_eq_filter:
  assumes "sorted_wrt (<) vs" "\<forall>j \<in> set vs. j < n"
  shows "vs = filter (\<lambda>i. i \<in> set vs) [0..<(n::nat)]"
proof (rule sorted_distinct_set_unique)
  from assms(1) show "sorted vs" "distinct vs"
    by (simp_all add: strict_sorted_iff)
  show "sorted (filter (\<lambda>i. i \<in> set vs) [0..<n])" by (simp add: sorted_wrt_filter)
  show "distinct (filter (\<lambda>i. i \<in> set vs) [0..<n])" by simp
  from assms(2) show "set vs = set (filter (\<lambda>i. i \<in> set vs) [0..<n])" by auto
qed

lemma gather_nths:
  assumes "sorted_wrt (<) vs" "\<forall>j \<in> set vs. j < length xs"
  shows "map ((!) xs) vs = nths xs (set vs)"
proof -
  from assms have "vs = filter (\<lambda>i. i \<in> set vs) [0..<length xs]"
    by (rule strict_sorted_eq_filter)
  then have "map ((!) xs) vs = map ((!) xs) (filter (\<lambda>i. i \<in> set vs) [0..<length xs])"
    by simp
  also have "\<dots> = nths xs {i. i \<in> set vs}"
    by (rule nths_filter_upt)
  finally show ?thesis by simp
qed

lemma getProperty_gathered:
  assumes "getProperty t name = Inr c"
  shows "getProperty (gathered_table t vs) name = Inr (map ((!) c) vs)"
proof -
  from assms have m: "map_of (columns t) name = Some c"
    by (simp add: getProperty_def split: option.splits)
  have "map_of (map (gather_column vs) cs) name = Some (map ((!) c) vs)"
    if "map_of cs name = Some c" for cs
    using that by (induction cs) (auto simp: gather_column_def split: if_splits)
  from this [OF m] show ?thesis
    by (simp add: getProperty_def gathered_table_def)
qed

lemma getPropertyNames_gathered:
  "getPropertyNames (gathered_table t vs) = getPropertyNames t"
  by (simp add: getPropertyNames_def gathered_table_def gather_column_def comp_def)

lemma copy_properties_plyIn:
  "copy_properties names n vs s = Inr s' \<Longrightarrow> plyIn s' = plyIn s"
  by (induction names arbitrary: s) (auto split: sum.splits)

lemma addPropertyIn_shape:
  "addPropertyIn [(''vertex'', u)] ''vertex'' name data = Inr ply \<Longrightarrow>
   \<exists>u'. ply = [(''vertex'', u')]"
  by (auto simp: addPropertyIn_def split: sum.splits)

lemma copy_properties_shape:
  "copy_properties names n vs s = Inr s' \<Longrightarrow> plyOut s = [(''vertex'', u)] \<Longrightarrow>
   \<exists>u'. plyOut s' = [(''vertex'', u')]"
proof (induction names arbitrary: s u)
  case Nil
  then show ?case by simp
next
  case (Cons name names)
  from Cons.prems(1) obtain d ply where
    a: "addPropertyIn (plyOut s) ''vertex'' name d = Inr ply"
    and c: "copy_properties names n vs (s\<lparr>plyOut := ply\<rparr>) = Inr s'"
    by (auto split: sum.splits)
  from a Cons.prems(2) obtain u' where "ply = [(''vertex'', u')]"
    using addPropertyIn_shape by metis
  then have "plyOut (s\<lparr>plyOut := ply\<rparr>) = [(''vertex'', u')]" by simp
  from Cons.IH [OF c this] show ?case .
qed

lemma compact_table_shape:
  "compact_table ply vs = Inr s \<Longrightarrow> \<exists>u. plyOut s = [(''vertex'', u)]"
  unfolding compact_table_def Let_def
  by (auto split: sum.splits dest!: copy_properties_shape simp: addElement_def)

lemma compact_table_plyIn:
  "compact_table ply vs = Inr s \<Longrightarrow> plyIn s = ply"
  unfolding compact_table_def Let_def
  by (auto split: sum.splits dest!: copy_properties_plyIn)


lemma fgt_antimono:
  assumes "fle t1 t2" "fgt s t2"
  shows "fgt s t1"
  using assms by (cases s; cases t1; cases t2) simp_all

lemma length_filter_mono:
  assumes "\<And>x. x \<in> set xs \<Longrightarrow> P x \<Longrightarrow> Q x"
  shows "length (filter P xs) \<le> length (filter Q xs)"
  using assms by (induction xs) auto

subsection \<open>The driver\<close>

lemma select_mask_range:
  assumes "wf_table t" "select_mask fexp t thr = Inr vs"
  shows "\<forall>j \<in> set vs. j < record_count t"
proof -
  from assms(2) obtain ops where "getProperty t ''opacity'' = Inr ops"
    by (auto simp: select_mask_def split: sum.splits)
  from select_mask_eq [OF assms(1) this, of fexp thr] assms(2) show ?thesis
    by auto
qed

lemma run_success:
  assumes inp: "files w input_path = Some (Asset ply)"
    and el: "getElement ply ''vertex'' = Inr t"
    and wf: "wf_table t"
    and sel: "select_mask fexp t threshold = Inr vs"
    and wr: "writable w output_path"
  shows "run fexp input_path output_path threshold w =
    (Exit 0,
     w\<lparr>files := (files w)(output_path \<mapsto> Asset [(''vertex'', gathered_table t vs)]),
       cout := cout w @
         [Loading input_path,
          OriginalGaussians (record_count t),
          PrunedGaussians (length vs),
          CompressionRate (print6 (compression_rate (length vs) (record_count t))),
          Writing output_path,
          Complete]\<rparr>)"
proof -
  from wf sel have "\<forall>j \<in> set vs. j < record_count t"
    by (rule select_mask_range)
  with el wf have "compact_table ply vs =
      Inr \<lparr>plyIn = ply, plyOut = [(''vertex'', gathered_table t vs)]\<rparr>"
    by (rule compact_table_eq)
  with inp el sel wr show ?thesis
    by (simp add: run_def say_def load_asset_def write_asset_def Let_def)
qed

lemma run_exit_files:
  assumes "run fexp input_path output_path threshold w = (Exit 0, w')"
  shows "\<exists>u. files w' output_path = Some (Asset [(''vertex'', u)])"
  using assms
  unfolding run_def Let_def
  by (auto simp: say_def write_asset_def terminate_def
      split: sum.splits if_splits dest!: compact_table_shape)

lemma compression_rate_empty: "compression_rate 0 0 = NaN"
  by (simp add: compression_rate_def float_of_size_def round32_def fsub_def)

subsection \<open>Rounding\<close>

lemma ilog_bounds:
  "1 < b \<Longrightarrow> 1 \<le> n \<Longrightarrow>
   0 \<le> ilog b n \<and> b ^ nat (ilog b n) \<le> n \<and> n < b ^ (nat (ilog b n) + 1)"
proof (induction b n rule: ilog.induct)
  case (1 b n)
  show ?case
  proof (cases "b \<le> n")
    case True
    define m where "m = n div b"
    define k where "k = ilog b m"
    from True "1.prems" have "0 < n div b"
      using pos_imp_zdiv_pos_iff [of b n] by simp
    then have m1: "1 \<le> m"
      unfolding m_def by simp
    from "1.IH" "1.prems" True m1
    have ih: "0 \<le> k" "b ^ nat k \<le> m" "m < b ^ (nat k + 1)"
      by (simp_all add: m_def k_def)
    have il: "ilog b n = k + 1"
      using True "1.prems" by (subst ilog.simps) (simp add: k_def m_def)
    have nk: "nat (k + 1) = nat k + 1"
      using ih(1) by simp
    have bpos: "0 < b" using "1.prems" by simp
    have dm: "n = b * m + n mod b"
      unfolding m_def by simp
    have r: "0 \<le> n mod b" "n mod b < b"
      using bpos by simp_all
    have "b * m \<le> n"
      using dm r by linarith
    moreover have "b * b ^ nat k \<le> b * m"
      using ih(2) bpos by (intro mult_left_mono) simp_all
    ultimately have lo: "b ^ (nat k + 1) \<le> n" by simp
    have "b * (m + 1) = b * m + b"
      by (simp add: algebra_simps)
    with dm r have "n < b * (m + 1)"
      by linarith
    moreover have "b * (m + 1) \<le> b * b ^ (nat k + 1)"
      using ih(3) bpos by (intro mult_left_mono) simp_all
    ultimately have hi: "n < b ^ (nat k + 1 + 1)" by simp
    from ih(1) lo hi show ?thesis
      unfolding il nk by simp
  next
    case False
    then have "ilog b n = 0"
      by (subst ilog.simps) simp
    with False "1.prems" show ?thesis by simp
  qed
qed


lemma floor_int_bounds:
  fixes x :: rat
  assumes "1 \<le> x"
  shows "1 \<le> \<lfloor>x\<rfloor>" "of_int \<lfloor>x\<rfloor> \<le> x" "x < of_int (\<lfloor>x\<rfloor> + 1)"
  using assms by simp_all linarith

lemma ilog_rat_bounds:
  assumes "1 < b" "1 \<le> n"
  shows "0 \<le> ilog b n"
    and "(of_int b :: rat) ^ nat (ilog b n) \<le> of_int n"
    and "of_int (n + 1) \<le> (of_int b :: rat) ^ (nat (ilog b n) + 1)"
proof -
  from ilog_bounds [OF assms]
  have ib: "0 \<le> ilog b n" "b ^ nat (ilog b n) \<le> n" "n + 1 \<le> b ^ (nat (ilog b n) + 1)"
    by simp_all
  show "0 \<le> ilog b n" by (rule ib(1))
  from ib(2) have "(of_int (b ^ nat (ilog b n)) :: rat) \<le> of_int n"
    by (simp only: of_int_le_iff)
  then show "(of_int b :: rat) ^ nat (ilog b n) \<le> of_int n"
    by (simp only: of_int_power)
  from ib(3) have "(of_int (n + 1) :: rat) \<le> of_int (b ^ (nat (ilog b n) + 1))"
    by (simp only: of_int_le_iff)
  then show "of_int (n + 1) \<le> (of_int b :: rat) ^ (nat (ilog b n) + 1)"
    by (simp only: of_int_power)
qed

lemma floor_log_ge1:
  assumes "1 \<le> x" "1 < b"
  shows "of_int b powi floor_log b x \<le> x \<and> x < of_int b powi (floor_log b x + 1)"
proof -
  define k where "k = ilog b \<lfloor>x\<rfloor>"
  note n = floor_int_bounds [OF assms(1)]
  note ib = ilog_rat_bounds [OF assms(2) n(1), folded k_def]
  have fl: "floor_log b x = int (nat k)"
    using assms(1) ib(1) by (simp add: floor_log_def k_def)
  have fl1: "floor_log b x + 1 = int (nat k + 1)"
    using ib(1) by (simp add: fl)
  from ib(2) n(2) have "(of_int b :: rat) ^ nat k \<le> x"
    by (rule order_trans)
  moreover from n(3) ib(3) have "x < (of_int b :: rat) ^ (nat k + 1)"
    by (rule less_le_trans)
  ultimately show ?thesis
    unfolding fl1 unfolding fl by (simp only: power_int_of_nat)
qed

lemma floor_log_lt1:
  assumes "0 < x" "x < 1" "1 < b"
  shows "of_int b powi floor_log b x \<le> x \<and> x < of_int b powi (floor_log b x + 1)"
proof -
  define k where "k = ilog b \<lfloor>1 / x\<rfloor>"
  define B :: rat where "B = of_int b"
  from assms(1,2) have "1 \<le> 1 / x" by simp
  note n = floor_int_bounds [OF this]
  note ib = ilog_rat_bounds [OF assms(3) n(1), folded k_def, folded B_def]
  have B1: "1 < B" using assms(3) by (simp add: B_def)
  then have B0: "B \<noteq> 0" by simp
  have Bp: "0 < B ^ j" for j using B1 by simp
  have pk: "B powi k = B ^ nat k"
    using ib(1) by (simp add: power_int_def)
  have pmk: "B powi (- k) = 1 / B ^ nat k"
    by (simp only: power_int_minus_divide pk)
  have pmk1: "B powi (- k - 1) = 1 / B ^ (nat k + 1)"
  proof -
    have "- k - 1 = - int (nat k + 1)" using ib(1) by simp
    then show ?thesis
      by (simp only: power_int_minus_divide power_int_of_nat)
  qed
  from ib(2) n(2) have "B ^ nat k \<le> 1 / x"
    by (rule order_trans)
  then have "B ^ nat k * x \<le> 1"
    using assms(1) by (simp add: pos_le_divide_eq)
  then have hi: "x * B ^ nat k \<le> 1"
    by (simp only: mult.commute)
  from n(3) ib(3) have "1 / x < B ^ (nat k + 1)"
    by (rule less_le_trans)
  then have "1 < B ^ (nat k + 1) * x"
    using assms(1) by (simp add: pos_divide_less_eq)
  then have lo: "1 / B ^ (nat k + 1) < x"
    using Bp [of "nat k + 1"] by (simp add: pos_divide_less_eq mult.commute)
  have nle: "\<not> 1 \<le> x" using assms(2) by simp
  show ?thesis
  proof (cases "x * B powi k = 1")
    case True
    have fl: "floor_log b x = - k"
      unfolding floor_log_def Let_def k_def [symmetric] B_def [symmetric]
      using nle True by simp
    have nz: "B ^ nat k \<noteq> 0" using Bp [of "nat k"] by (metis less_irrefl)
    from True have "x * B ^ nat k = 1" unfolding pk .
    then have xe: "x = 1 / B ^ nat k"
      by (rule eq_divide_imp [OF nz])
    have "B powi (- k + 1) = B powi (- k) * B"
      by (rule power_int_add_1) (simp add: B0)
    also have "\<dots> = x * B" by (simp only: pmk xe)
    finally have up: "B powi (- k + 1) = x * B" .
    have "x * 1 < x * B"
      using assms(1) B1 by (intro mult_strict_left_mono)
    then have "x < B powi (- k + 1)"
      by (simp only: up mult_1_right)
    moreover have "B powi (- k) \<le> x"
      by (simp only: pmk xe order_refl)
    ultimately show ?thesis
      unfolding fl B_def [symmetric] by simp
  next
    case False
    have fl: "floor_log b x = - k - 1"
      unfolding floor_log_def Let_def k_def [symmetric] B_def [symmetric]
      using nle False by simp
    from False have "x * B ^ nat k \<noteq> 1" unfolding pk .
    with hi have "x * B ^ nat k < 1"
      by (rule le_neq_trans)
    then have "x < 1 / B ^ nat k"
      by (simp only: pos_less_divide_eq [OF Bp])
    then have "x < B powi (- k - 1 + 1)"
      by (simp add: pmk)
    moreover from lo have "B powi (- k - 1) \<le> x"
      by (simp only: pmk1 less_imp_le)
    ultimately show ?thesis
      unfolding fl B_def [symmetric] by simp
  qed
qed

lemma floor_log_bounds:
  assumes "0 < x" "1 < b"
  shows "of_int b powi floor_log b x \<le> x \<and> x < of_int b powi (floor_log b x + 1)"
proof (cases "1 \<le> x")
  case True
  then show ?thesis using assms(2) by (rule floor_log_ge1)
next
  case False
  then have "x < 1" by simp
  with assms(1) show ?thesis using assms(2) by (rule floor_log_lt1)
qed

lemma round_half_even_err: "\<bar>of_int (round_half_even r) - r\<bar> \<le> 1 / 2"
proof -
  have "of_int \<lfloor>r\<rfloor> \<le> r" "r < of_int \<lfloor>r\<rfloor> + 1"
    by linarith+
  then show ?thesis
    unfolding round_half_even_def Let_def
    by (auto simp only: split: if_splits)
qed

lemma round32_bounds:
  assumes lo: "1 / 2 ^ 126 \<le> x" and hi: "x < 2 ^ 127"
  shows "\<exists>y. round32 x = Fin y \<and> \<bar>y - x\<bar> \<le> x / 2 ^ 24"
proof -
  define e where "e = floor_log 2 x"
  define q :: rat where "q = 2 powi (e - 23)"
  define y where "y = of_int (round_half_even (x / q)) * q"
  have xpos: "0 < x"
    using lo by (rule less_le_trans [rotated]) simp
  from floor_log_bounds [of x 2] xpos
  have b: "2 powi e \<le> x" "x < 2 powi (e + 1)"
    by (simp_all add: e_def)
  have e_lo: "- 126 \<le> e"
  proof (rule ccontr)
    assume "\<not> - 126 \<le> e"
    then have "e + 1 \<le> - 126" by simp
    then have "(2::rat) powi (e + 1) \<le> 2 powi (- 126)"
      by (intro power_int_increasing) simp_all
    also have "\<dots> = 1 / 2 ^ 126"
      by (simp add: power_int_minus_divide)
    finally show False using lo b(2) by simp
  qed
  have e_hi: "e \<le> 126"
  proof (rule ccontr)
    assume "\<not> e \<le> 126"
    then have "127 \<le> e" by simp
    then have "(2::rat) powi 127 \<le> 2 powi e"
      by (intro power_int_increasing) simp_all
    with b(1) hi show False by simp
  qed
  have qpos: "0 < q" by (simp add: q_def)
  have "q = 2 powi e / 2 ^ 23"
    by (simp add: q_def power_int_diff)
  with b(1) have qle: "q \<le> x / 2 ^ 23"
    by (simp add: divide_right_mono)
  have "y - x = (of_int (round_half_even (x / q)) - x / q) * q"
    using qpos by (simp add: y_def left_diff_distrib)
  then have "\<bar>y - x\<bar> = \<bar>of_int (round_half_even (x / q)) - x / q\<bar> * q"
    using qpos by (simp only: abs_mult abs_of_pos)
  also have "\<dots> \<le> 1 / 2 * q"
    using qpos round_half_even_err [of "x / q"] by (intro mult_right_mono) simp_all
  also have "\<dots> \<le> x / 2 ^ 24"
    using qle by simp
  finally have err: "\<bar>y - x\<bar> \<le> x / 2 ^ 24" .
  have "x / 2 ^ 24 \<le> x" using xpos by (simp add: field_simps)
  with err have "y \<le> 2 * x" "0 \<le> y" by linarith+
  with hi have fin: "\<not> 2 ^ 128 \<le> y" "\<not> y \<le> - (2 ^ 128)"
    by simp_all
  have "round32 x = Fin y"
    unfolding round32_def Let_def
    using xpos e_lo fin
    by (simp add: e_def [symmetric] q_def [symmetric] y_def [symmetric] max_absorb1)
  with err show ?thesis by blast
qed

lemma rel_err_bounds:
  fixes a :: rat
  assumes "\<bar>z - a\<bar> \<le> a * e"
  shows "a * (1 - e) \<le> z" "z \<le> a * (1 + e)"
  using assms by (simp_all add: abs_le_iff algebra_simps)

lemma sigmoid_bounds:
  assumes fe: "fexp (fneg x) = Fin y"
    and y: "lo \<le> y" "y \<le> hi" "0 \<le> lo" "hi \<le> 2 ^ 100"
  shows "\<exists>w. sigmoid fexp x = Fin w
           \<and> (1 - 1 / 2 ^ 24) / ((1 + hi) * (1 + 1 / 2 ^ 24)) \<le> w
           \<and> w \<le> (1 + 1 / 2 ^ 24) / ((1 + lo) * (1 - 1 / 2 ^ 24))"
proof -
  define eps :: rat where "eps = 1 / 2 ^ 24"
  have eps: "0 < eps" "eps < 1" by (simp_all add: eps_def)
  have y0: "0 \<le> y" using y by simp
  have "1 / 2 ^ 126 \<le> 1 + y" "1 + y < 2 ^ 127"
    using y by simp_all
  from round32_bounds [OF this] obtain z where
    z: "round32 (1 + y) = Fin z" "\<bar>z - (1 + y)\<bar> \<le> (1 + y) / 2 ^ 24"
    by blast
  from z(2) have "\<bar>z - (1 + y)\<bar> \<le> (1 + y) * eps"
    by (simp add: eps_def)
  then have zb: "(1 + y) * (1 - eps) \<le> z" "z \<le> (1 + y) * (1 + eps)"
    by (rule rel_err_bounds)+
  have lo1: "(1 + lo) * (1 - eps) \<le> z"
  proof -
    have "(1 + lo) * (1 - eps) \<le> (1 + y) * (1 - eps)"
      using y eps by (intro mult_right_mono) simp_all
    then show ?thesis using zb(1) by (rule order_trans)
  qed
  have hi1: "z \<le> (1 + hi) * (1 + eps)"
  proof -
    have "(1 + y) * (1 + eps) \<le> (1 + hi) * (1 + eps)"
      using y eps by (intro mult_right_mono) simp_all
    with zb(2) show ?thesis by (rule order_trans)
  qed
  have lpos: "0 < (1 + lo) * (1 - eps)"
    using y eps by (intro mult_pos_pos) simp_all
  with lo1 have zpos: "0 < z" by simp
  have hpos: "0 < (1 + hi) * (1 + eps)"
    using y eps by (intro mult_pos_pos) simp_all
  have inv_hi: "1 / z \<le> 1 / ((1 + lo) * (1 - eps))"
    by (rule frac_le [OF _ _ lpos lo1]) simp_all
  have inv_lo: "1 / ((1 + hi) * (1 + eps)) \<le> 1 / z"
    by (rule frac_le [OF _ _ zpos hi1]) simp_all
  have half: "(1 + lo) * (1 - eps) \<ge> 1 / 2"
  proof -
    have "1 * (1 - eps) \<le> (1 + lo) * (1 - eps)"
      using y eps by (intro mult_right_mono) simp_all
    moreover have "1 / 2 \<le> 1 * (1 - eps)" by (simp add: eps_def)
    ultimately show ?thesis by (rule order_trans [rotated])
  qed
  have "1 / ((1 + lo) * (1 - eps)) \<le> 1 / (1 / 2)"
    by (rule frac_le [OF _ _ _ half]) simp_all
  with inv_hi have r_hi: "1 / z < 2 ^ 127" by simp
  have big: "(1 + hi) * (1 + eps) \<le> (1 + 2 ^ 100) * 2"
    using y eps by (intro mult_mono) simp_all
  have "1 / ((1 + 2 ^ 100) * 2) \<le> 1 / ((1 + hi) * (1 + eps))"
    by (rule frac_le [OF _ _ hpos big]) simp_all
  moreover have "(1::rat) / 2 ^ 126 \<le> 1 / ((1 + 2 ^ 100) * 2)"
    by simp
  ultimately have r_lo: "1 / 2 ^ 126 \<le> 1 / z"
    using inv_lo by linarith
  from round32_bounds [OF r_lo r_hi] obtain w where
    w: "round32 (1 / z) = Fin w" "\<bar>w - 1 / z\<bar> \<le> 1 / z / 2 ^ 24"
    by blast
  from w(2) have "\<bar>w - 1 / z\<bar> \<le> 1 / z * eps"
    by (simp add: eps_def)
  then have wb: "1 / z * (1 - eps) \<le> w" "w \<le> 1 / z * (1 + eps)"
    by (rule rel_err_bounds)+
  have "sigmoid fexp x = Fin w"
    using zpos by (simp add: sigmoid_def fe z w)
  moreover have "(1 - eps) / ((1 + hi) * (1 + eps)) \<le> w"
  proof -
    have "1 / ((1 + hi) * (1 + eps)) * (1 - eps) \<le> 1 / z * (1 - eps)"
      using inv_lo eps by (intro mult_right_mono) simp_all
    then have "1 / ((1 + hi) * (1 + eps)) * (1 - eps) \<le> w"
      using wb(1) by (rule order_trans)
    then show ?thesis by simp
  qed
  moreover have "w \<le> (1 + eps) / ((1 + lo) * (1 - eps))"
  proof -
    have "1 / z * (1 + eps) \<le> 1 / ((1 + lo) * (1 - eps)) * (1 + eps)"
      using inv_hi eps by (intro mult_right_mono) simp_all
    with wb(2) have "w \<le> 1 / ((1 + lo) * (1 - eps)) * (1 + eps)"
      by (rule order_trans)
    then show ?thesis by simp
  qed
  ultimately show ?thesis
    unfolding eps_def by blast
qed

subsection \<open>The exponential at the arguments of the scenario\<close>

lemma exp_1_bounds: "2718 / 1000 \<le> exp (1::real)" "exp (1::real) \<le> 27184 / 10000"
proof -
  from Maclaurin_exp_le [of 1 8] obtain t :: real where
    t: "\<bar>t\<bar> \<le> 1" and e: "exp 1 = (\<Sum>m<8. 1 ^ m / fact m) + exp t / fact 8 * 1 ^ 8"
    by auto
  have s: "(\<Sum>m<8. 1 ^ m / fact m :: real) = 685 / 252"
    by (simp add: eval_nat_numeral)
  have f: "fact 8 = (40320 :: real)"
    by (simp add: eval_nat_numeral)
  from t have a: "exp t \<le> exp 1" by simp
  have b: "0 \<le> exp t" by simp
  from e have c: "exp 1 = 685 / 252 + exp t / 40320"
    unfolding s f by simp
  from a b c show "2718 / 1000 \<le> exp (1::real)" by linarith
  from a b c show "exp (1::real) \<le> 27184 / 10000" by linarith
qed


lemma exp_accurate_bounds:
  assumes acc: "exp_accurate fexp x"
    and lo: "real_of_rat L \<le> exp (real_of_rat x)"
    and hi: "exp (real_of_rat x) \<le> real_of_rat U"
  shows "\<exists>y. fexp (Fin x) = Fin y \<and> L * (99 / 100) \<le> y \<and> y \<le> U * (101 / 100)"
proof -
  from acc obtain y where y: "fexp (Fin x) = Fin y"
    and err: "\<bar>real_of_rat y - exp (real_of_rat x)\<bar> \<le> exp (real_of_rat x) / 100"
    by (auto simp: exp_accurate_def split: float.splits)
  from err lo have "real_of_rat L * (99 / 100) \<le> real_of_rat y" by linarith
  then have "real_of_rat (L * (99 / 100)) \<le> real_of_rat y"
    by (simp add: of_rat_mult of_rat_divide)
  then have a: "L * (99 / 100) \<le> y"
    by (simp only: of_rat_less_eq)
  from err hi have "real_of_rat y \<le> real_of_rat U * (101 / 100)" by linarith
  then have "real_of_rat y \<le> real_of_rat (U * (101 / 100))"
    by (simp add: of_rat_mult of_rat_divide)
  then have b: "y \<le> U * (101 / 100)"
    by (simp only: of_rat_less_eq)
  from y a b show ?thesis by blast
qed

lemma exp_3_bounds: "2007 / 100 \<le> exp (3::real)" "exp (3::real) \<le> 2009 / 100"
proof -
  have e: "exp (3::real) = exp 1 ^ 3"
    using exp_of_nat_mult [of 3 "1::real"] by simp
  have a: "(2718 / 1000) ^ 3 \<le> exp (1::real) ^ 3"
    using exp_1_bounds(1) by (intro power_mono) simp_all
  have b: "(2007 / 100::real) \<le> (2718 / 1000) ^ 3" by (simp add: power_divide)
  from b a show "2007 / 100 \<le> exp (3::real)" unfolding e by (rule order_trans)
  have c: "exp (1::real) ^ 3 \<le> (27184 / 10000) ^ 3"
    using exp_1_bounds(2) by (intro power_mono) simp_all
  have d: "(27184 / 10000) ^ 3 \<le> (2009 / 100::real)" by (simp add: power_divide)
  from c d show "exp (3::real) \<le> 2009 / 100" unfolding e by (rule order_trans)
qed

lemma exp_10_bounds: "22000 \<le> exp (10::real)" "exp (10::real) \<le> 22100"
proof -
  have e: "exp (10::real) = exp 1 ^ 10"
    using exp_of_nat_mult [of 10 "1::real"] by simp
  have a: "(2718 / 1000) ^ 10 \<le> exp (1::real) ^ 10"
    using exp_1_bounds(1) by (intro power_mono) simp_all
  have b: "(22000::real) \<le> (2718 / 1000) ^ 10" by (simp add: power_divide)
  from b a show "22000 \<le> exp (10::real)" unfolding e by (rule order_trans)
  have c: "exp (1::real) ^ 10 \<le> (27184 / 10000) ^ 10"
    using exp_1_bounds(2) by (intro power_mono) simp_all
  have d: "(27184 / 10000) ^ 10 \<le> (22100::real)" by (simp add: power_divide)
  from c d show "exp (10::real) \<le> 22100" unfolding e by (rule order_trans)
qed

lemma exp_m3_bounds: "100 / 2009 \<le> exp (- 3::real)" "exp (- 3::real) \<le> 100 / 2007"
  using exp_3_bounds by (simp_all add: exp_minus field_simps)

lemma exp_m10_bounds: "1 / 22100 \<le> exp (- 10::real)" "exp (- 10::real) \<le> 1 / 22000"
  using exp_10_bounds by (simp_all add: exp_minus field_simps)

subsection \<open>Evaluating the float operations\<close>

lemma sigmoid_dropped:
  assumes "fexp (fneg x) = Fin y" "lo \<le> y" "y \<le> hi" "0 \<le> lo" "hi \<le> 2 ^ 100"
    and "(1 + 1 / 2 ^ 24) / ((1 + lo) * (1 - 1 / 2 ^ 24)) \<le> t"
  shows "\<not> fgt (sigmoid fexp x) (Fin t)"
proof -
  from sigmoid_bounds [where fexp = fexp and x = x, OF assms(1-5)] obtain w where
    "sigmoid fexp x = Fin w" "w \<le> (1 + 1 / 2 ^ 24) / ((1 + lo) * (1 - 1 / 2 ^ 24))"
    by blast
  with assms(6) show ?thesis by simp
qed

lemma sigmoid_kept:
  assumes "fexp (fneg x) = Fin y" "lo \<le> y" "y \<le> hi" "0 \<le> lo" "hi \<le> 2 ^ 100"
    and "t < (1 - 1 / 2 ^ 24) / ((1 + hi) * (1 + 1 / 2 ^ 24))"
  shows "fgt (sigmoid fexp x) (Fin t)"
proof -
  from sigmoid_bounds [where fexp = fexp and x = x, OF assms(1-5)] obtain w where
    "sigmoid fexp x = Fin w" "(1 - 1 / 2 ^ 24) / ((1 + hi) * (1 + 1 / 2 ^ 24)) \<le> w"
    by blast
  with assms(6) show ?thesis by simp
qed

lemma ilog_numeral:
  "ilog (numeral b) (numeral n) =
     (if (1::int) < numeral b \<and> (numeral b :: int) \<le> numeral n
      then ilog (numeral b) (numeral n div numeral b) + 1 else 0)"
  by (rule ilog.simps)

lemma ilog_small: "ilog b 0 = 0" "ilog b 1 = 0"
  by (subst ilog.simps, simp)+

lemma floor_numeral_quotient:
  "\<lfloor>numeral a / numeral b :: rat\<rfloor> = numeral a div numeral b"
  "\<lfloor>- (numeral a / numeral b) :: rat\<rfloor> = - numeral a div numeral b"
  using floor_divide_of_int_eq [of "numeral a" "numeral b", where ?'a = rat]
    floor_divide_of_int_eq [of "- numeral a" "numeral b", where ?'a = rat]
  by simp_all

lemma square_times_numeral:
  "square_times (numeral n) y = square_times (pred_numeral n) (fmul y y)"
  by (simp add: numeral_eq_Suc)

lemmas float_eval =
  round32_def floor_log_def round_half_even_def Let_def ilog_numeral ilog_small
  power_int_minus_divide floor_numeral_quotient

lemma float_literal_0_05: "round32 (1 / 20) = Fin (13421773 / 2 ^ 28)"
  by (simp add: float_eval)

lemma compression_rate_3_5: "compression_rate 3 5 = Fin (10485759 / 2 ^ 18)"
  by (simp add: compression_rate_def float_of_size_def fsub_def float_eval)

lemma print6_rate_3_5: "print6 (Fin (10485759 / 2 ^ 18)) = PrintedNum 40"
  by (simp add: float_eval)

lemma stof_abc: "stof_decimal ''abc'' = Inl InvalidArgument"
  by (simp add: stof_decimal_def is_space_def is_digit_def)


lemma scenario_sigmoids:
  assumes "exp_accurate fexp 10" "exp_accurate fexp 3" "exp_accurate fexp 0"
    "exp_accurate fexp (- 3)" "exp_accurate fexp (- 10)"
  shows "\<not> fgt (sigmoid fexp (Fin (- 10))) (round32 (1 / 20))"
    and "\<not> fgt (sigmoid fexp (Fin (- 3))) (round32 (1 / 20))"
    and "fgt (sigmoid fexp (Fin 0)) (round32 (1 / 20))"
    and "fgt (sigmoid fexp (Fin 3)) (round32 (1 / 20))"
    and "fgt (sigmoid fexp (Fin 10)) (round32 (1 / 20))"
proof -
  from exp_accurate_bounds [OF assms(1), of 22000 22100] exp_10_bounds
  obtain y10 where y10: "fexp (Fin 10) = Fin y10" "21780 \<le> y10" "y10 \<le> 22321"
    by auto
  from exp_accurate_bounds [OF assms(2), of "2007 / 100" "2009 / 100"] exp_3_bounds
  obtain y3 where y3: "fexp (Fin 3) = Fin y3" "198 / 10 \<le> y3" "y3 \<le> 203 / 10"
    by (auto simp: of_rat_divide)
  from exp_accurate_bounds [OF assms(3), of 1 1]
  obtain y0 where y0: "fexp (Fin 0) = Fin y0" "99 / 100 \<le> y0" "y0 \<le> 101 / 100"
    by auto
  from exp_accurate_bounds [OF assms(4), of "100 / 2009" "100 / 2007"] exp_m3_bounds
  obtain z3 where z3: "fexp (Fin (- 3)) = Fin z3" "49 / 1000 \<le> z3" "z3 \<le> 51 / 1000"
    by (auto simp: of_rat_divide)
  from exp_accurate_bounds [OF assms(5), of "1 / 22100" "1 / 22000"] exp_m10_bounds
  obtain z10 where z10: "fexp (Fin (- 10)) = Fin z10" "99 / 2210000 \<le> z10" "z10 \<le> 101 / 2200000"
    by (auto simp: of_rat_divide)
  show "\<not> fgt (sigmoid fexp (Fin (- 10))) (round32 (1 / 20))"
    unfolding float_literal_0_05
    by (rule sigmoid_dropped [where fexp = fexp and y = y10 and lo = 21780 and hi = 22321])
      (use y10 in simp_all)
  show "\<not> fgt (sigmoid fexp (Fin (- 3))) (round32 (1 / 20))"
    unfolding float_literal_0_05
    by (rule sigmoid_dropped [where fexp = fexp and y = y3 and lo = "198 / 10" and hi = "203 / 10"])
      (use y3 in simp_all)
  show "fgt (sigmoid fexp (Fin 0)) (round32 (1 / 20))"
    unfolding float_literal_0_05
    by (rule sigmoid_kept [where fexp = fexp and y = y0 and lo = "99 / 100" and hi = "101 / 100"])
      (use y0 in simp_all)
  show "fgt (sigmoid fexp (Fin 3)) (round32 (1 / 20))"
    unfolding float_literal_0_05
    by (rule sigmoid_kept [where fexp = fexp and y = z3 and lo = "49 / 1000" and hi = "51 / 1000"])
      (use z3 in simp_all)
  show "fgt (sigmoid fexp (Fin 10)) (round32 (1 / 20))"
    unfolding float_literal_0_05
    by (rule sigmoid_kept [where fexp = fexp and y = z10 and lo = "99 / 2210000" and hi = "101 / 2200000"])
      (use z10 in simp_all)
qed

lemma scenario_mask:
  assumes wf: "wf_table t" and rc: "record_count t = 5"
    and op: "getProperty t ''opacity'' = Inr [Fin (- 10), Fin (- 3), Fin 0, Fin 3, Fin 10]"
    and acc: "exp_accurate fexp 10" "exp_accurate fexp 3" "exp_accurate fexp 0"
      "exp_accurate fexp (- 3)" "exp_accurate fexp (- 10)"
  shows "select_mask fexp t (round32 (1 / 20)) = Inr [2, 3, 4]"
proof -
  have u: "[0..<5] = [0, 1, 2, 3, 4::nat]"
    by code_simp
  note s = scenario_sigmoids [OF acc]
  show ?thesis
    unfolding select_mask_eq [OF wf op] rc u
    using s by simp
qed

lemma fexp_ref_10: "fexp_ref (Fin 10) = Fin (5633273 / 256)"
  by (simp add: float_eval square_times_numeral)

lemma fexp_ref_3: "fexp_ref (Fin 3) = Fin (1315679 / 65536)"
  by (simp add: float_eval square_times_numeral)

lemma fexp_ref_0: "fexp_ref (Fin 0) = Fin 1"
  by (simp add: float_eval square_times_numeral)

lemma fexp_ref_m3: "fexp_ref (Fin (- 3)) = Fin (208801 / 4194304)"
  by (simp add: float_eval square_times_numeral)

lemma fexp_ref_m10: "fexp_ref (Fin (- 10)) = Fin (3116139 / 68719476736)"
  by (simp add: float_eval square_times_numeral)

lemma fexp_ref_accurate:
  "exp_accurate fexp_ref 10" "exp_accurate fexp_ref 3" "exp_accurate fexp_ref 0"
  "exp_accurate fexp_ref (- 3)" "exp_accurate fexp_ref (- 10)"
proof -
  have "\<bar>5633273 / 256 - exp 10\<bar> \<le> exp (10::real) / 100"
    using exp_10_bounds by linarith
  then show "exp_accurate fexp_ref 10"
    unfolding exp_accurate_def fexp_ref_10 float.case
    by (simp add: of_rat_divide del: fexp_ref.simps)
  have "\<bar>1315679 / 65536 - exp 3\<bar> \<le> exp (3::real) / 100"
    using exp_3_bounds by linarith
  then show "exp_accurate fexp_ref 3"
    unfolding exp_accurate_def fexp_ref_3 float.case
    by (simp add: of_rat_divide del: fexp_ref.simps)
  show "exp_accurate fexp_ref 0"
    unfolding exp_accurate_def fexp_ref_0 float.case
    by (simp del: fexp_ref.simps)
  have "\<bar>208801 / 4194304 - exp (- 3)\<bar> \<le> exp (- 3::real) / 100"
    using exp_m3_bounds by linarith
  then show "exp_accurate fexp_ref (- 3)"
    unfolding exp_accurate_def fexp_ref_m3 float.case
    by (simp add: of_rat_divide del: fexp_ref.simps)
  have "\<bar>3116139 / 68719476736 - exp (- 10)\<bar> \<le> exp (- 10::real) / 100"
    using exp_m10_bounds by linarith
  then show "exp_accurate fexp_ref (- 10)"
    unfolding exp_accurate_def fexp_ref_m10 float.case
    by (simp add: of_rat_divide del: fexp_ref.simps)
qed

subsection \<open>The sample assets\<close>

lemma scenario_table_wf: "wf_table scenario_table"
  by (simp add: wf_table_def scenario_table_def)

lemma other_table_wf: "wf_table other_table"
  by (simp add: wf_table_def other_table_def)

lemma empty_table_wf: "wf_table empty_table"
  by (simp add: wf_table_def empty_table_def)

lemma scenario_table_opacity:
  "getProperty scenario_table ''opacity'' = Inr [Fin (- 10), Fin (- 3), Fin 0, Fin 3, Fin 10]"
  by (simp add: getProperty_def scenario_table_def)

lemma other_table_opacity:
  "getProperty other_table ''opacity'' = Inr [Fin (- 10), Fin (- 3), Fin 0, Fin 3, Fin 10]"
  by (simp add: getProperty_def other_table_def)

lemma scenario_table_scale:
  "getProperty scenario_table ''scale_0'' =
     Inr [Fin (1 / 2), Fin (1 / 4), Fin (1 / 8), Fin (1 / 16), Fin (1 / 32)]"
  by (simp add: getProperty_def scenario_table_def)

lemma empty_table_opacity: "getProperty empty_table ''opacity'' = Inr []"
  by (simp add: getProperty_def empty_table_def)

lemma scenario_ply_vertex: "getElement scenario_ply ''vertex'' = Inr scenario_table"
  by (simp add: getElement_def scenario_ply_def)

lemma scenario_table_count: "record_count scenario_table = 5"
  by (simp add: scenario_table_def)

lemma sample_world_files:
  "files sample_world ''scene.ply'' = Some (Asset scenario_ply)"
  "files sample_world ''empty.ply'' = Some (Asset [(''vertex'', empty_table)])"
  by (simp_all add: sample_world_def)

lemma sample_world_writable: "writable sample_world path"
  by (simp add: sample_world_def)

subsection \<open>Runs on the sample assets\<close>

lemma main_default_threshold:
  "main fexp stof prog [input_path, output_path] w =
     run fexp input_path output_path (round32 (1 / 20)) w"
  by (simp add: main_def)

lemma sample_run_scene:
  "main fexp_ref stof_decimal ''gaussian_pruner'' [''scene.ply'', ''out.ply''] sample_world =
    (Exit 0,
     sample_world\<lparr>files := (files sample_world)
         (''out.ply'' \<mapsto> Asset [(''vertex'', gathered_table scenario_table [2, 3, 4])]),
       cout := cout sample_world @
         [Loading ''scene.ply'',
          OriginalGaussians (record_count scenario_table),
          PrunedGaussians (length [2, 3, 4::nat]),
          CompressionRate
            (print6 (compression_rate (length [2, 3, 4::nat]) (record_count scenario_table))),
          Writing ''out.ply'',
          Complete]\<rparr>)"
  unfolding main_default_threshold
  using sample_world_files(1) scenario_ply_vertex scenario_table_wf
    scenario_mask [OF scenario_table_wf scenario_table_count scenario_table_opacity
      fexp_ref_accurate]
    sample_world_writable
  by (rule run_success)

lemma select_mask_empty:
  assumes "wf_table t" "record_count t = 0" "getProperty t ''opacity'' = Inr opacity_column"
  shows "select_mask fexp t threshold = Inr []"
  using select_mask_eq [OF assms(1,3), of fexp threshold] assms(2) by simp

lemma sample_run_empty:
  "run fexp_ref ''empty.ply'' ''out.ply'' (round32 (1 / 20)) sample_world =
    (Exit 0,
     sample_world\<lparr>files := (files sample_world)
         (''out.ply'' \<mapsto> Asset [(''vertex'', gathered_table empty_table [])]),
       cout := cout sample_world @
         [Loading ''empty.ply'',
          OriginalGaussians (record_count empty_table),
          PrunedGaussians (length ([]::nat list)),
          CompressionRate
            (print6 (compression_rate (length ([]::nat list)) (record_count empty_table))),
          Writing ''out.ply'',
          Complete]\<rparr>)"
proof -
  have c: "record_count empty_table = 0"
    by (simp add: empty_table_def)
  have "select_mask fexp_ref empty_table (round32 (1 / 20)) = Inr []"
    using empty_table_wf c empty_table_opacity by (rule select_mask_empty)
  with sample_world_files(2) _ empty_table_wf show ?thesis
    by (rule run_success) (simp_all add: sample_world_writable)
qed

lemma stof_prefix: "stof_decimal ''0.5xyz'' = Inr (Fin (1 / 2))"
  by (simp add: stof_decimal_def is_space_def is_digit_def digits_value_def float_eval)

lemma sample_run_half:
  "fst (run fexp_ref ''scene.ply'' ''out.ply'' (Fin (1 / 2)) sample_world) = Exit 0"
proof -
  from select_mask_eq [OF scenario_table_wf scenario_table_opacity, of fexp_ref "Fin (1 / 2)"]
  obtain vs where "select_mask fexp_ref scenario_table (Fin (1 / 2)) = Inr vs"
    by blast
  from run_success [OF sample_world_files(1) scenario_ply_vertex scenario_table_wf this
      sample_world_writable]
  show ?thesis by simp
qed

section \<open>The claims\<close>



text \<open>
  Claim C2. For every valid input table, the output table built by the compaction has the
  same property names in the same order as the input table, and as many records as the
  selection has indices.
\<close>

theorem compact_table_preserves_schema:
  assumes "getElement ply ''vertex'' = Inr t"
    and "wf_table t"
    and "\<forall>j \<in> set valid_indices. j < record_count t"
  shows "\<exists>s out.
           compact_table ply valid_indices = Inr s
         \<and> plyOut s = [(''vertex'', out)]
         \<and> getPropertyNames out = getPropertyNames t
         \<and> record_count out = length valid_indices"
proof -
  from compact_table_eq [OF assms]
  have "compact_table ply valid_indices =
      Inr \<lparr>plyIn = ply, plyOut = [(''vertex'', gathered_table t valid_indices)]\<rparr>" .
  moreover have "record_count (gathered_table t valid_indices) = length valid_indices"
    by (simp add: gathered_table_def)
  ultimately show ?thesis
    by (simp add: getPropertyNames_gathered)
qed

theorem compact_table_preserves_schema_witness:
  "getElement scenario_ply ''vertex'' = Inr scenario_table
   \<and> wf_table scenario_table
   \<and> 2 < record_count scenario_table
   \<and> 3 < record_count scenario_table
   \<and> 4 < record_count scenario_table
   \<and> (\<exists>s out.
           compact_table scenario_ply [2, 3, 4] = Inr s
         \<and> plyOut s = [(''vertex'', out)]
         \<and> getPropertyNames out = getPropertyNames scenario_table
         \<and> record_count out = length [2, 3, 4::nat])"
proof -
  have r: "\<forall>j \<in> set [2, 3, 4]. j < record_count scenario_table"
    by (simp add: scenario_table_count)
  have n: "2 < record_count scenario_table" "3 < record_count scenario_table"
    "4 < record_count scenario_table"
    by (simp_all add: scenario_table_count)
  from compact_table_preserves_schema [OF scenario_ply_vertex scenario_table_wf r]
    scenario_ply_vertex scenario_table_wf n
  show ?thesis by blast
qed

text \<open>
  Claim C3. For every valid input table and selection mask (ascending indices of the
  table), each output column holds at position \<open>j\<close> the value \<open>old_column[mask[j]]\<close>,
  for every property: it is the input column restricted to the retained positions, in
  the input order.
\<close>

theorem compact_table_gathers_in_order:
  assumes "getElement ply ''vertex'' = Inr t"
    and "wf_table t"
    and "sorted_wrt (<) valid_indices"
    and "\<forall>j \<in> set valid_indices. j < record_count t"
    and "getProperty t prop_name = Inr old_column"
  shows "\<exists>s out new_column.
           compact_table ply valid_indices = Inr s
         \<and> plyOut s = [(''vertex'', out)]
         \<and> getProperty out prop_name = Inr new_column
         \<and> length new_column = length valid_indices
         \<and> (\<forall>j < length valid_indices. new_column ! j = old_column ! (valid_indices ! j))
         \<and> new_column = nths old_column (set valid_indices)"
proof -
  from compact_table_eq [OF assms(1,2,4)]
  have c: "compact_table ply valid_indices =
      Inr \<lparr>plyIn = ply, plyOut = [(''vertex'', gathered_table t valid_indices)]\<rparr>" .
  from assms(5) have g: "getProperty (gathered_table t valid_indices) prop_name =
      Inr (map ((!) old_column) valid_indices)"
    by (rule getProperty_gathered)
  from assms(2,5) have "length old_column = record_count t"
    by (rule getProperty_length)
  with assms(4) have "\<forall>j \<in> set valid_indices. j < length old_column"
    by simp
  with assms(3) have n: "map ((!) old_column) valid_indices = nths old_column (set valid_indices)"
    by (rule gather_nths)
  have "\<forall>j < length valid_indices.
      map ((!) old_column) valid_indices ! j = old_column ! (valid_indices ! j)"
    by simp
  with c g n show ?thesis
    by (metis length_map store.select_convs(2))
qed

theorem compact_table_gathers_in_order_witness:
  "getElement scenario_ply ''vertex'' = Inr scenario_table
   \<and> wf_table scenario_table
   \<and> sorted_wrt (<) [2, 3, 4::nat]
   \<and> 2 < record_count scenario_table
   \<and> 3 < record_count scenario_table
   \<and> 4 < record_count scenario_table
   \<and> getProperty scenario_table ''scale_0'' =
        Inr [Fin (1 / 2), Fin (1 / 4), Fin (1 / 8), Fin (1 / 16), Fin (1 / 32)]
   \<and> (\<exists>s out new_column.
           compact_table scenario_ply [2, 3, 4] = Inr s
         \<and> plyOut s = [(''vertex'', out)]
         \<and> getProperty out ''scale_0'' = Inr new_column
         \<and> new_column =
             nths [Fin (1 / 2), Fin (1 / 4), Fin (1 / 8), Fin (1 / 16), Fin (1 / 32)]
               (set [2, 3, 4]))"
proof -
  have r: "\<forall>j \<in> set [2, 3, 4]. j < record_count scenario_table"
    by (simp add: scenario_table_count)
  have o: "sorted_wrt (<) [2, 3, 4::nat]"
    by simp
  have n: "2 < record_count scenario_table" "3 < record_count scenario_table"
    "4 < record_count scenario_table"
    by (simp_all add: scenario_table_count)
  from compact_table_gathers_in_order
    [OF scenario_ply_vertex scenario_table_wf o r scenario_table_scale]
    scenario_ply_vertex scenario_table_wf o n scenario_table_scale
  show ?thesis by blast
qed

text \<open>
  Claim C4. For a fixed input table and two thresholds \<open>t1 \<le> t2\<close>, the selection at
  \<open>t2\<close> retains at most as many records as the selection at \<open>t1\<close>.
\<close>

theorem select_mask_threshold_monotone:
  assumes "wf_table t"
    and "getProperty t ''opacity'' = Inr opacity_column"
    and "fle t1 t2"
  shows "\<exists>mask1 mask2.
           select_mask fexp t t1 = Inr mask1
         \<and> select_mask fexp t t2 = Inr mask2
         \<and> length mask2 \<le> length mask1"
proof -
  have "length (filter (\<lambda>i. fgt (sigmoid fexp (opacity_column ! i)) t2) [0..<record_count t])
      \<le> length (filter (\<lambda>i. fgt (sigmoid fexp (opacity_column ! i)) t1) [0..<record_count t])"
    by (rule length_filter_mono) (rule fgt_antimono [OF assms(3)])
  then show ?thesis
    by (simp add: select_mask_eq [OF assms(1,2)])
qed

theorem select_mask_threshold_monotone_witness:
  "wf_table scenario_table
   \<and> getProperty scenario_table ''opacity'' = Inr [Fin (- 10), Fin (- 3), Fin 0, Fin 3, Fin 10]
   \<and> fle (Fin (1 / 20)) (Fin (1 / 2))
   \<and> (\<exists>mask1 mask2.
           select_mask fexp_ref scenario_table (Fin (1 / 20)) = Inr mask1
         \<and> select_mask fexp_ref scenario_table (Fin (1 / 2)) = Inr mask2
         \<and> length mask2 \<le> length mask1)"
proof -
  have l: "fle (Fin (1 / 20)) (Fin (1 / 2))"
    by simp
  from select_mask_threshold_monotone [OF scenario_table_wf scenario_table_opacity l, of fexp_ref]
    scenario_table_wf scenario_table_opacity l
  show ?thesis by blast
qed

text \<open>
  Claim C5, as the code has it. For an input table without records the run completes with
  exit status 0 and writes a table with no record and the same property list. The rate
  is computed as \<open>(1.0f - 0.0f / 0.0f) * 100.0f\<close>: the division does not trap, and the
  rate reported is NaN, not 0.
\<close>

theorem empty_input_completes:
  assumes "files w input_path = Some (Asset ply)"
    and "getElement ply ''vertex'' = Inr t"
    and "wf_table t"
    and "record_count t = 0"
    and "getProperty t ''opacity'' = Inr opacity_column"
    and "writable w output_path"
  shows "\<exists>out.
           run fexp input_path output_path threshold w =
             (Exit 0,
              w\<lparr>files := (files w)(output_path \<mapsto> Asset [(''vertex'', out)]),
                cout := cout w @
                  [Loading input_path,
                   OriginalGaussians 0,
                   PrunedGaussians 0,
                   CompressionRate PrintedNaN,
                   Writing output_path,
                   Complete]\<rparr>)
         \<and> record_count out = 0
         \<and> getPropertyNames out = getPropertyNames t
         \<and> compression_rate 0 0 = NaN"
proof -
  have "select_mask fexp t threshold = Inr []"
    using assms(3,4,5) by (rule select_mask_empty)
  from run_success [OF assms(1,2,3) this assms(6)]
  have "run fexp input_path output_path threshold w =
      (Exit 0,
       w\<lparr>files := (files w)(output_path \<mapsto> Asset [(''vertex'', gathered_table t [])]),
         cout := cout w @
           [Loading input_path,
            OriginalGaussians 0,
            PrunedGaussians 0,
            CompressionRate PrintedNaN,
            Writing output_path,
            Complete]\<rparr>)"
    by (simp add: assms(4) compression_rate_empty)
  moreover have "record_count (gathered_table t []) = 0"
    by (simp add: gathered_table_def)
  ultimately show ?thesis
    using getPropertyNames_gathered [of t "[]"] compression_rate_empty by blast
qed

theorem empty_input_completes_witness:
  "files sample_world ''empty.ply'' = Some (Asset [(''vertex'', empty_table)])
   \<and> getElement [(''vertex'', empty_table)] ''vertex'' = Inr empty_table
   \<and> wf_table empty_table
   \<and> record_count empty_table = 0
   \<and> getProperty empty_table ''opacity'' = Inr []
   \<and> writable sample_world ''out.ply''
   \<and> (\<exists>out.
           run fexp_ref ''empty.ply'' ''out.ply'' (round32 (1 / 20)) sample_world =
             (Exit 0,
              sample_world\<lparr>files := (files sample_world)
                    (''out.ply'' \<mapsto> Asset [(''vertex'', out)]),
                cout := cout sample_world @
                  [Loading ''empty.ply'',
                   OriginalGaussians 0,
                   PrunedGaussians 0,
                   CompressionRate PrintedNaN,
                   Writing ''out.ply'',
                   Complete]\<rparr>)
         \<and> record_count out = 0
         \<and> getPropertyNames out = getPropertyNames empty_table)"
proof -
  have c: "record_count empty_table = 0"
    by (simp add: empty_table_def)
  have g: "getElement [(''vertex'', empty_table)] ''vertex'' = Inr empty_table"
    by simp
  from empty_input_completes
    [OF sample_world_files(2) g empty_table_wf c empty_table_opacity sample_world_writable,
      where fexp = fexp_ref and threshold = "round32 (1 / 20)"]
    sample_world_files(2) g empty_table_wf c empty_table_opacity
    sample_world_writable [of "''out.ply''"]
  show ?thesis by blast
qed

text \<open>The claim as the specification states it, a reported rate of 0 percent, fails on
  the sample asset without records.\<close>

theorem empty_input_rate_counterexample:
  "cout (snd (run fexp_ref ''empty.ply'' ''out.ply'' (round32 (1 / 20)) sample_world)) =
     [Loading ''empty.ply'', OriginalGaussians 0, PrunedGaussians 0,
      CompressionRate PrintedNaN, Writing ''out.ply'', Complete]
   \<and> CompressionRate (PrintedNum 0) \<notin>
       set (cout (snd (run fexp_ref ''empty.ply'' ''out.ply'' (round32 (1 / 20)) sample_world)))"
proof -
  have "cout (snd (run fexp_ref ''empty.ply'' ''out.ply'' (round32 (1 / 20)) sample_world)) =
     [Loading ''empty.ply'', OriginalGaussians 0, PrunedGaussians 0,
      CompressionRate PrintedNaN, Writing ''out.ply'', Complete]"
    unfolding sample_run_empty
    by (simp add: sample_world_def empty_table_def compression_rate_empty)
  then show ?thesis by simp
qed

text \<open>
  Claim C6, as the code has it. When the third argument is present and \<open>std::stof\<close>
  throws on it (it finds no number at the start of the argument, or the number is out of
  range), the exception leaves \<open>main\<close> before any input or output: the process is
  aborted, its only print is the runtime's message for the exception, not a usage
  message, and nothing is read and no file written. An argument that \<open>std::stof\<close>
  accepts, as it does a number followed by other characters, becomes the threshold.
  When the argument is absent the threshold is \<open>0.05f\<close>, the binary32 nearest to 0.05.
\<close>

theorem threshold_argument:
  "(stof a = Inl e \<longrightarrow>
      main fexp stof prog (input_path # output_path # a # rest) w =
        (Terminate e, w\<lparr>cerr := cerr w @ [Uncaught e]\<rparr>))
   \<and> (stof a = Inr threshold \<longrightarrow>
      main fexp stof prog (input_path # output_path # a # rest) w =
        run fexp input_path output_path threshold w)
   \<and> main fexp stof prog [input_path, output_path] w =
       run fexp input_path output_path (round32 (1 / 20)) w
   \<and> round32 (1 / 20) = Fin (13421773 / 2 ^ 28)"
  by (simp add: main_def terminate_def float_literal_0_05)

theorem threshold_argument_witness:
  "stof_decimal ''abc'' = Inl InvalidArgument
   \<and> main fexp_ref stof_decimal ''gaussian_pruner'' [''scene.ply'', ''out.ply'', ''abc'']
       sample_world =
       (Terminate InvalidArgument,
        sample_world\<lparr>cerr := cerr sample_world @ [Uncaught InvalidArgument]\<rparr>)
   \<and> stof_decimal ''0.5xyz'' = Inr (Fin (1 / 2))
   \<and> main fexp_ref stof_decimal ''gaussian_pruner'' [''scene.ply'', ''out.ply'', ''0.5xyz'']
       sample_world = run fexp_ref ''scene.ply'' ''out.ply'' (Fin (1 / 2)) sample_world
   \<and> main fexp_ref stof_decimal ''gaussian_pruner'' [''scene.ply'', ''out.ply'']
       sample_world = run fexp_ref ''scene.ply'' ''out.ply'' (round32 (1 / 20)) sample_world"
  using threshold_argument [where stof = stof_decimal and a = "''abc''"
      and e = InvalidArgument and fexp = fexp_ref and prog = "''gaussian_pruner''"
      and input_path = "''scene.ply''" and output_path = "''out.ply''" and rest = "[]"
      and w = sample_world]
    threshold_argument [where stof = stof_decimal and a = "''0.5xyz''"
      and threshold = "Fin (1 / 2)" and fexp = fexp_ref and prog = "''gaussian_pruner''"
      and input_path = "''scene.ply''" and output_path = "''out.ply''" and rest = "[]"
      and w = sample_world]
    stof_abc stof_prefix
  by blast

text \<open>The claim as the specification states it fails twice. At the argument \<open>abc\<close> no
  usage error is reported: the process is aborted and the only print is the runtime's
  message for the exception. At the argument \<open>0.5xyz\<close>, which is not a decimal number,
  no error is reported at all: the run completes with the threshold 0.5.\<close>

theorem unparsable_threshold_counterexample:
  "fst (main fexp_ref stof_decimal ''gaussian_pruner'' [''scene.ply'', ''out.ply'', ''abc'']
          sample_world) = Terminate InvalidArgument
   \<and> cerr (snd (main fexp_ref stof_decimal ''gaussian_pruner''
          [''scene.ply'', ''out.ply'', ''abc''] sample_world)) = [Uncaught InvalidArgument]
   \<and> Usage ''gaussian_pruner'' \<notin> set (cerr (snd (main fexp_ref stof_decimal
          ''gaussian_pruner'' [''scene.ply'', ''out.ply'', ''abc''] sample_world)))
   \<and> fst (main fexp_ref stof_decimal ''gaussian_pruner''
          [''scene.ply'', ''out.ply'', ''0.5xyz''] sample_world) = Exit 0"
proof -
  have a: "main fexp_ref stof_decimal ''gaussian_pruner'' [''scene.ply'', ''out.ply'', ''abc'']
      sample_world =
      (Terminate InvalidArgument,
       sample_world\<lparr>cerr := cerr sample_world @ [Uncaught InvalidArgument]\<rparr>)"
    by (simp add: main_def terminate_def stof_abc)
  have b: "main fexp_ref stof_decimal ''gaussian_pruner''
      [''scene.ply'', ''out.ply'', ''0.5xyz''] sample_world =
      run fexp_ref ''scene.ply'' ''out.ply'' (Fin (1 / 2)) sample_world"
    by (simp add: main_def stof_prefix)
  have c: "cerr sample_world = []"
    by (simp add: sample_world_def)
  show ?thesis
    unfolding a b using sample_run_half by (simp add: c)
qed

text \<open>
  Claim C7. With five records of opacity logits \<open>-10, -3, 0, 3, 10\<close> and the default
  threshold \<open>0.05f\<close>, and \<open>std::exp\<close> within one percent of the exponential at
  the five arguments it is called with, the selection is \<open>[2, 3, 4]\<close>, the output table
  has 3 records and the rate printed is 40 percent.
\<close>

theorem scenario_five_records:
  assumes "files w input_path = Some (Asset ply)"
    and "getElement ply ''vertex'' = Inr t"
    and "wf_table t"
    and "record_count t = 5"
    and "getProperty t ''opacity'' = Inr [Fin (- 10), Fin (- 3), Fin 0, Fin 3, Fin 10]"
    and "writable w output_path"
    and "exp_accurate fexp 10" "exp_accurate fexp 3" "exp_accurate fexp 0"
      "exp_accurate fexp (- 3)" "exp_accurate fexp (- 10)"
  shows "select_mask fexp t (round32 (1 / 20)) = Inr [2, 3, 4]
       \<and> (\<exists>out.
             main fexp stof prog [input_path, output_path] w =
               (Exit 0,
                w\<lparr>files := (files w)(output_path \<mapsto> Asset [(''vertex'', out)]),
                  cout := cout w @
                    [Loading input_path,
                     OriginalGaussians 5,
                     PrunedGaussians 3,
                     CompressionRate (PrintedNum 40),
                     Writing output_path,
                     Complete]\<rparr>)
           \<and> record_count out = 3)"
proof -
  have m: "select_mask fexp t (round32 (1 / 20)) = Inr [2, 3, 4]"
    using assms(3,4,5,7-11) by (rule scenario_mask)
  have l: "length [2, 3, 4::nat] = 3"
    by simp
  have "main fexp stof prog [input_path, output_path] w =
      (Exit 0,
       w\<lparr>files := (files w)(output_path \<mapsto> Asset [(''vertex'', gathered_table t [2, 3, 4])]),
         cout := cout w @
           [Loading input_path,
            OriginalGaussians 5,
            PrunedGaussians 3,
            CompressionRate (PrintedNum 40),
            Writing output_path,
            Complete]\<rparr>)"
    unfolding main_default_threshold
    by (rule run_success [OF assms(1,2,3) m assms(6),
          unfolded l assms(4) compression_rate_3_5 print6_rate_3_5])
  moreover have "record_count (gathered_table t [2, 3, 4]) = 3"
    by (simp add: gathered_table_def)
  ultimately show ?thesis
    using m by blast
qed

theorem scenario_five_records_witness:
  "files sample_world ''scene.ply'' = Some (Asset scenario_ply)
   \<and> getElement scenario_ply ''vertex'' = Inr scenario_table
   \<and> wf_table scenario_table
   \<and> record_count scenario_table = 5
   \<and> getProperty scenario_table ''opacity'' = Inr [Fin (- 10), Fin (- 3), Fin 0, Fin 3, Fin 10]
   \<and> writable sample_world ''out.ply''
   \<and> exp_accurate fexp_ref 10 \<and> exp_accurate fexp_ref 3 \<and> exp_accurate fexp_ref 0
   \<and> exp_accurate fexp_ref (- 3) \<and> exp_accurate fexp_ref (- 10)
   \<and> select_mask fexp_ref scenario_table (round32 (1 / 20)) = Inr [2, 3, 4]
   \<and> (\<exists>out.
         main fexp_ref stof_decimal ''gaussian_pruner'' [''scene.ply'', ''out.ply'']
           sample_world =
           (Exit 0,
            sample_world\<lparr>files := (files sample_world)
                  (''out.ply'' \<mapsto> Asset [(''vertex'', out)]),
              cout := cout sample_world @
                [Loading ''scene.ply'',
                 OriginalGaussians 5,
                 PrunedGaussians 3,
                 CompressionRate (PrintedNum 40),
                 Writing ''out.ply'',
                 Complete]\<rparr>)
       \<and> record_count out = 3)"
  using scenario_five_records
    [OF sample_world_files(1) scenario_ply_vertex scenario_table_wf scenario_table_count
      scenario_table_opacity sample_world_writable fexp_ref_accurate,
      where output_path = "''out.ply''" and stof = stof_decimal and prog = "''gaussian_pruner''"]
    sample_world_files(1) scenario_ply_vertex scenario_table_wf scenario_table_count
    scenario_table_opacity sample_world_writable [of "''out.ply''"] fexp_ref_accurate
  by blast

text \<open>
  Claim C8. The selection depends on the opacity column, the record count and the
  threshold only: two tables that agree on these get the same mask, whatever their
  other columns hold.
\<close>

theorem select_mask_reads_opacity_only:
  assumes "getProperty t1 ''opacity'' = getProperty t2 ''opacity''"
    and "record_count t1 = record_count t2"
  shows "select_mask fexp t1 threshold = select_mask fexp t2 threshold"
  unfolding select_mask_def assms ..

theorem select_mask_reads_opacity_only_witness:
  "getProperty scenario_table ''opacity'' = getProperty other_table ''opacity''
   \<and> record_count scenario_table = record_count other_table
   \<and> columns scenario_table \<noteq> columns other_table
   \<and> select_mask fexp_ref scenario_table (Fin (1 / 20))
       = select_mask fexp_ref other_table (Fin (1 / 20))"
proof -
  have a: "getProperty scenario_table ''opacity'' = getProperty other_table ''opacity''"
    by (simp add: scenario_table_opacity other_table_opacity)
  have b: "record_count scenario_table = record_count other_table"
    by (simp add: scenario_table_def other_table_def)
  have c: "columns scenario_table \<noteq> columns other_table"
    by (simp add: scenario_table_def other_table_def)
  from select_mask_reads_opacity_only [OF a b, of fexp_ref "Fin (1 / 20)"] a b c
  show ?thesis by blast
qed

text \<open>
  Claim C9. Whatever the input asset holds, the asset the program writes has exactly one
  record type, \<open>vertex\<close>.
\<close>

theorem output_asset_has_only_vertex:
  assumes "main fexp stof prog args w = (Exit 0, w')"
  shows "\<exists>out. files w' (args ! 1) = Some (Asset [(''vertex'', out)])"
proof -
  from assms obtain threshold where
    "run fexp (args ! 0) (args ! 1) threshold w = (Exit 0, w')"
    by (auto simp: main_def Let_def terminate_def split: if_splits sum.splits)
  then show ?thesis
    by (rule run_exit_files)
qed

theorem output_asset_has_only_vertex_witness:
  "map fst scenario_ply = [''vertex'', ''face'']
   \<and> files sample_world ''scene.ply'' = Some (Asset scenario_ply)
   \<and> fst (main fexp_ref stof_decimal ''gaussian_pruner'' [''scene.ply'', ''out.ply'']
         sample_world) = Exit 0
   \<and> (\<exists>out. files
         (snd (main fexp_ref stof_decimal ''gaussian_pruner'' [''scene.ply'', ''out.ply'']
            sample_world))
         ([''scene.ply'', ''out.ply''] ! 1) = Some (Asset [(''vertex'', out)]))"
proof -
  have e: "fst (main fexp_ref stof_decimal ''gaussian_pruner'' [''scene.ply'', ''out.ply'']
      sample_world) = Exit 0"
    unfolding sample_run_scene by simp
  then have "main fexp_ref stof_decimal ''gaussian_pruner'' [''scene.ply'', ''out.ply'']
      sample_world =
    (Exit 0, snd (main fexp_ref stof_decimal ''gaussian_pruner'' [''scene.ply'', ''out.ply'']
      sample_world))"
    by (metis prod.collapse)
  from output_asset_has_only_vertex [OF this] e sample_world_files(1)
  show ?thesis
    by (simp add: scenario_ply_def)
qed

text \<open>
  Claim C10. Selection and compaction leave the loaded asset unchanged: when the output
  asset has been built, the input asset the driver holds, and so the table of its
  \<open>vertex\<close> element with every column and the record count, is what was loaded.
\<close>

theorem compact_table_keeps_input:
  assumes "compact_table ply valid_indices = Inr s"
  shows "plyIn s = ply \<and> getElement (plyIn s) ''vertex'' = getElement ply ''vertex''"
  using compact_table_plyIn [OF assms] by simp

theorem compact_table_keeps_input_witness:
  "compact_table scenario_ply [2, 3, 4] =
     Inr \<lparr>plyIn = scenario_ply,
          plyOut = [(''vertex'', gathered_table scenario_table [2, 3, 4])]\<rparr>
   \<and> plyIn \<lparr>plyIn = scenario_ply,
             plyOut = [(''vertex'', gathered_table scenario_table [2, 3, 4])]\<rparr> = scenario_ply
   \<and> getElement
         (plyIn \<lparr>plyIn = scenario_ply,
                  plyOut = [(''vertex'', gathered_table scenario_table [2, 3, 4])]\<rparr>) ''vertex''
       = getElement scenario_ply ''vertex''"
proof -
  have r: "\<forall>j \<in> set [2, 3, 4]. j < record_count scenario_table"
    by (simp add: scenario_table_count)
  have c: "compact_table scenario_ply [2, 3, 4] =
      Inr \<lparr>plyIn = scenario_ply,
           plyOut = [(''vertex'', gathered_table scenario_table [2, 3, 4])]\<rparr>"
    using scenario_ply_vertex scenario_table_wf r by (rule compact_table_eq)
  from compact_table_keeps_input [OF c] c show ?thesis
    by blast
qed

end
